theory Spec2Isabelle
  imports Main "HOL-Library.Sublist"
begin

section \<open>Data model\<close>

text \<open>
  Bytes are \<^typ>\<open>char\<close> (eight bits), byte sequences and text are \<^typ>\<open>string\<close>,
  as the source uses \<^verbatim>\<open>std::vector<char>\<close> and \<^verbatim>\<open>std::string_view\<close> for both.
  Values of \<^verbatim>\<open>size_t\<close> are natural numbers; where the source computes with them
  the reduction modulo \<open>2 ^ 64\<close> is written out.
\<close>

datatype MemoryOrder = Fortran | C

text \<open>The byte order of the machine the library runs on.\<close>

datatype endianness = LittleEndian | BigEndian

text \<open>
  Every \<^verbatim>\<open>throw\<close> of the source is one constructor. \<open>UndefinedBehaviour\<close> marks the
  places where the source reads outside an object (it has no defined result there).
\<close>

datatype error =
    VersionNotSupported
  | MagicStringNotFound
  | MissingTerminatingNewline
  | MalformedDictionary
  | MissingFortranOrder
  | MissingShape
  | MissingDescr
  | CouldNotParseDescr
  | BigEndianNotSupported
  | MalformedListInDescr
  | MalformedDescr
  | StoiOutOfRange
  | VectorAtOutOfRange
  | ArgumentSizesNotEqual
  | UnableToOpenFile
  | ElementSizeNotMatching
  | DataTypeNotMatching
  | MemoryOrderNotMatching
  | RanksNotMatching
  | MisshapedData
  | LabelCountMismatch
  | SizesNotMatching
  | WordSizesDoNotMatch
  | LabelNotFound
  | MappingFailed
  | UndefinedBehaviour

section \<open>Integers as text and as bytes\<close>

definition digit_char :: "nat \<Rightarrow> char" where
  "digit_char d = char_of (48 + d)"

text \<open>\<^verbatim>\<open>std::to_string\<close> on an unsigned value: its decimal digits.\<close>

function to_string :: "nat \<Rightarrow> string" where
  "to_string n = (if n < 10 then [digit_char n] else to_string (n div 10) @ [digit_char (n mod 10)])"
  by pat_completeness auto
termination
  by (relation "measure id") auto

declare to_string.simps [simp del]

text \<open>\<^verbatim>\<open>std::to_string\<close> on an \<^verbatim>\<open>int\<close>.\<close>

definition to_string_int :: "int \<Rightarrow> string" where
  "to_string_int i = (if i < 0 then CHR ''-'' # to_string (nat (- i)) else to_string (nat i))"

text \<open>The \<open>k\<close> low bytes of a value, least significant first.\<close>

fun le_bytes :: "nat \<Rightarrow> nat \<Rightarrow> string" where
  "le_bytes 0 v = []"
| "le_bytes (Suc k) v = char_of (v mod 256) # le_bytes k (v div 256)"

text \<open>The object representation of a \<open>k\<close>-byte integer on the host.\<close>

definition host_bytes :: "endianness \<Rightarrow> nat \<Rightarrow> nat \<Rightarrow> string" where
  "host_bytes e k v = (case e of LittleEndian \<Rightarrow> le_bytes k v | BigEndian \<Rightarrow> rev (le_bytes k v))"

text \<open>
  \<^verbatim>\<open>BigEndianTest\<close>: the first byte of the 32-bit integer 1 decides the marker.
\<close>

definition BigEndianTest :: "endianness \<Rightarrow> char" where
  "BigEndianTest e = (if hd (host_bytes e 4 1) \<noteq> CHR 0x00 then CHR ''<'' else CHR ''>'')"

section \<open>Type layout\<close>

datatype value_kind = BoolT | SignedT | UnsignedT | FloatT | ComplexT

text \<open>\<^verbatim>\<open>map_type\<close>: the one-character dtype code of an element type.\<close>

fun map_type :: "value_kind \<Rightarrow> char" where
  "map_type ComplexT = CHR ''c''"
| "map_type BoolT = CHR ''b''"
| "map_type SignedT = CHR ''i''"
| "map_type UnsignedT = CHR ''u''"
| "map_type FloatT = CHR ''f''"

section \<open>Header generation\<close>

text \<open>The text of the shape tuple, for a shape with at least one dimension.\<close>

fun append_dims :: "nat list \<Rightarrow> string" where
  "append_dims [] = []"
| "append_dims (d # ds) = '', '' @ to_string d @ append_dims ds"

definition append_shape :: "nat list \<Rightarrow> string" where
  "append_shape shape =
     to_string (hd shape) @ append_dims (tl shape) @ (if length shape = 1 then '','' else [])"

text \<open>
  Padding with spaces so that preamble and dictionary together are a multiple of 16
  bytes; the last byte added is replaced by a newline.
\<close>

definition pad_dict :: "string \<Rightarrow> string" where
  "pad_dict dict =
     (let remainder = 16 - (10 + length dict) mod 16
      in butlast (dict @ replicate remainder CHR '' '') @ [CHR 0x0A])"

text \<open>The ten bytes before the dictionary; the length is written as a 16-bit value.\<close>

definition npy_preamble :: "nat \<Rightarrow> string" where
  "npy_preamble dict_size =
     [CHR 0x93] @ ''NUMPY'' @ [CHR 0x01] @ [CHR 0x00] @ le_bytes 2 (dict_size mod 65536)"

definition memory_order_text :: "MemoryOrder \<Rightarrow> string" where
  "memory_order_text memory_order = (if memory_order = C then ''False'' else ''True'')"

text \<open>
  \<^verbatim>\<open>create_npy_header(shape, dtype, wordsize, memory_order)\<close>. The source reads
  \<^verbatim>\<open>shape[0]\<close> without a check.
\<close>

definition create_npy_header ::
  "endianness \<Rightarrow> nat list \<Rightarrow> char \<Rightarrow> int \<Rightarrow> MemoryOrder \<Rightarrow> error + string" where
  "create_npy_header e shape dtype wordsize memory_order =
     (if shape = [] then Inl UndefinedBehaviour
      else
        let dict = ''{'descr': '' @ [CHR 0x27] @ [BigEndianTest e] @ [dtype]
                   @ to_string_int wordsize
                   @ ''', 'fortran_order': '' @ memory_order_text memory_order
                   @ '', 'shape': ('' @ append_shape shape @ ''), }'';
            dict = pad_dict dict
        in Inr (npy_preamble (length dict) @ dict))"

text \<open>One \<^verbatim>\<open>('label', '<endian><code><width>')\<close> tuple per field, separated by commas.\<close>

fun append_fields :: "endianness \<Rightarrow> (string \<times> char \<times> nat) list \<Rightarrow> string" where
  "append_fields e [] = []"
| "append_fields e ((label, dtype, sz) # fs) =
     ''('' @ [CHR 0x27] @ label @ [CHR 0x27] @ '', '' @ [CHR 0x27] @ [BigEndianTest e] @ [dtype]
     @ to_string sz @ [CHR 0x27] @ '')''
     @ (if fs \<noteq> [] then '', '' else [])
     @ append_fields e fs"

text \<open>
  \<^verbatim>\<open>create_npy_header(shape, labels, dtypes, sizes, memory_order)\<close>, the overload for
  structured types.
\<close>

definition create_npy_header_struct ::
  "endianness \<Rightarrow> nat list \<Rightarrow> string list \<Rightarrow> char list \<Rightarrow> nat list \<Rightarrow> MemoryOrder
     \<Rightarrow> error + string" where
  "create_npy_header_struct e shape labels dtypes sizes memory_order =
     (if length labels \<noteq> length dtypes \<or> length dtypes \<noteq> length sizes
         \<or> length sizes \<noteq> length labels
      then Inl ArgumentSizesNotEqual
      else if shape = [] then Inl UndefinedBehaviour
      else
        let dict = ''{'descr': ['' @ append_fields e (zip labels (zip dtypes sizes))
                   @ (if length dtypes = 1 then '','' else [])
                   @ ''], 'fortran_order': '' @ memory_order_text memory_order
                   @ '', 'shape': ('' @ append_shape shape @ ''), }'';
            dict = pad_dict dict
        in Inr (npy_preamble (length dict) @ dict))"

section \<open>Header parsing\<close>

subsection \<open>Character classes and the regular expressions of the parser\<close>

text \<open>\<^verbatim>\<open>\d\<close>, \<^verbatim>\<open>\w\<close> and the range \<^verbatim>\<open>[a-zA-z]\<close> (which, as written, runs from \<open>A\<close> to \<open>z\<close>).\<close>

definition is_digit :: "char \<Rightarrow> bool" where
  "is_digit c = (let n = (of_char c :: nat) in 48 \<le> n \<and> n \<le> 57)"

definition is_word :: "char \<Rightarrow> bool" where
  "is_word c = (let n = (of_char c :: nat)
     in (48 \<le> n \<and> n \<le> 57) \<or> (65 \<le> n \<and> n \<le> 90) \<or> (97 \<le> n \<and> n \<le> 122) \<or> n = 95)"

definition is_Az :: "char \<Rightarrow> bool" where
  "is_Az c = (let n = (of_char c :: nat) in (97 \<le> n \<and> n \<le> 122) \<or> (65 \<le> n \<and> n \<le> 122))"

text \<open>
  \<^verbatim>\<open>std::regex_search\<close>: the leftmost position at which the expression matches. The
  expression is given by its anchored matcher \<open>m\<close>; the result is the position and what
  the matcher captured.
\<close>

fun regex_search :: "(string \<Rightarrow> 'a option) \<Rightarrow> string \<Rightarrow> (nat \<times> 'a) option" where
  "regex_search m [] = map_option (Pair 0) (m [])"
| "regex_search m (c # cs) =
     (case m (c # cs) of
        Some r \<Rightarrow> Some (0, r)
      | None \<Rightarrow> map_option (\<lambda>(i, r). (Suc i, r)) (regex_search m cs))"

text \<open>\<^verbatim>\<open>string_view::find(sub)\<close> and \<^verbatim>\<open>string_view::find(sub, pos)\<close>.\<close>

definition find_str :: "string \<Rightarrow> string \<Rightarrow> nat option" where
  "find_str sub s = map_option fst (regex_search (\<lambda>t. if prefix sub t then Some () else None) s)"

definition find_from :: "string \<Rightarrow> nat \<Rightarrow> string \<Rightarrow> nat option" where
  "find_from sub pos s =
     (if pos \<le> length s then map_option (\<lambda>i. pos + i) (find_str sub (drop pos s)) else None)"

text \<open>The expression \<^verbatim>\<open>'fortran_order': (True|False)\<close>; the capture is \<open>True\<close> or \<open>False\<close>.\<close>

definition match_fortran_order :: "string \<Rightarrow> string option" where
  "match_fortran_order s =
     (if prefix '''fortran_order': True'' s then Some ''True''
      else if prefix '''fortran_order': False'' s then Some ''False''
      else None)"

text \<open>
  The expression \<^verbatim>\<open>'([<>\|])([a-zA-z])(\d+)'\<close>; the captures are the endian marker, the type
  code and the digits of the width.
\<close>

definition match_descr :: "string \<Rightarrow> (char \<times> char \<times> string) option" where
  "match_descr s =
     (case s of
        q # e # t # rest \<Rightarrow>
          (let ds = takeWhile is_digit rest
           in if q = CHR 0x27 \<and> e \<in> set ''<>|'' \<and> is_Az t \<and> ds \<noteq> []
                 \<and> prefix [CHR 0x27] (dropWhile is_digit rest)
              then Some (e, t, ds) else None)
      | _ \<Rightarrow> None)"

text \<open>
  The expression \<^verbatim>\<open>\('(\w+)', '([<>|])([a-zA-z])(\d+)'\)\<close>; the captures are the label, the
  endian marker, the type code and the digits of the width.
\<close>

definition match_tuple :: "string \<Rightarrow> (string \<times> char \<times> char \<times> string) option" where
  "match_tuple s =
     (case s of
        p # q # rest \<Rightarrow>
          (let label = takeWhile is_word rest; r = dropWhile is_word rest
           in if p = CHR ''('' \<and> q = CHR 0x27 \<and> label \<noteq> [] \<and> prefix ([CHR 0x27] @ '', '') r
              then (case match_descr (drop 3 r) of
                      Some (e, t, ds) \<Rightarrow>
                        if prefix '')'' (drop (3 + (4 + length ds)) r)
                        then Some (label, e, t, ds) else None
                    | None \<Rightarrow> None)
              else None)
      | _ \<Rightarrow> None)"

text \<open>
  \<^verbatim>\<open>std::cregex_iterator\<close> with the tuple expression: the matches from left to right,
  each search starting where the previous match ended. The first argument counts the
  characters of the current match that are still to be passed.
\<close>

fun tuple_matches :: "nat \<Rightarrow> string \<Rightarrow> (string \<times> char \<times> char \<times> string) list" where
  "tuple_matches k [] = []"
| "tuple_matches (Suc k) (c # cs) = tuple_matches k cs"
| "tuple_matches 0 (c # cs) =
     (case match_tuple (c # cs) of
        Some (label, e, t, ds) \<Rightarrow>
          (label, e, t, ds) # tuple_matches (9 + length label + length ds) cs
      | None \<Rightarrow> tuple_matches 0 cs)"

text \<open>
  \<^verbatim>\<open>std::cregex_iterator\<close> with \<^verbatim>\<open>\d+\<close>: the maximal runs of digits, from left to
  right. The first argument is the run being read.
\<close>

fun digit_runs :: "string \<Rightarrow> string \<Rightarrow> string list" where
  "digit_runs cur [] = (if cur = [] then [] else [cur])"
| "digit_runs cur (c # cs) =
     (if is_digit c then digit_runs (cur @ [c]) cs
      else (if cur = [] then [] else [cur]) @ digit_runs [] cs)"

text \<open>
  \<^verbatim>\<open>std::stoi\<close> on a string of digits: the value, or \<^verbatim>\<open>std::out_of_range\<close> when it
  does not fit an \<^verbatim>\<open>int\<close>.
\<close>

definition digits_value :: "string \<Rightarrow> nat" where
  "digits_value s = foldl (\<lambda>a c. 10 * a + (of_char c - 48)) 0 s"

definition stoi :: "string \<Rightarrow> error + nat" where
  "stoi s = (if digits_value s \<le> 2147483647 then Inr (digits_value s) else Inl StoiOutOfRange)"

fun stoi_all :: "string list \<Rightarrow> error + nat list" where
  "stoi_all [] = Inr []"
| "stoi_all (s # ss) =
     (case stoi s of
        Inl err \<Rightarrow> Inl err
      | Inr v \<Rightarrow> (case stoi_all ss of Inl err \<Rightarrow> Inl err | Inr vs \<Rightarrow> Inr (v # vs)))"

subsection \<open>The dictionary\<close>

text \<open>What the parser hands back through its reference arguments.\<close>

record parsed_header =
  ph_word_sizes :: "nat list"
  ph_data_types :: "char list"
  ph_labels :: "string list"
  ph_shape :: "nat list"
  ph_memory_order :: MemoryOrder

definition parse_fortran_order :: "string \<Rightarrow> error + MemoryOrder" where
  "parse_fortran_order dict =
     (case regex_search match_fortran_order dict of
        None \<Rightarrow> Inl MissingFortranOrder
      | Some (i, m) \<Rightarrow> Inr (if m = ''True'' then Fortran else C))"

definition parse_shape :: "string \<Rightarrow> error + nat list" where
  "parse_shape dict =
     (case find_str '''shape': ('' dict of
        None \<Rightarrow> Inl MissingShape
      | Some pos_start_shape \<Rightarrow>
          (case find_from '')'' pos_start_shape dict of
             None \<Rightarrow> Inl MalformedDictionary
           | Some pos_end_shape \<Rightarrow>
               stoi_all (digit_runs []
                 (take (pos_end_shape - pos_start_shape) (drop pos_start_shape dict)))))"

text \<open>
  The loop over the tuples of a structured descriptor: the label is stored, a big-endian
  marker throws, then type code and width are stored.
\<close>

fun parse_tuples ::
  "(string \<times> char \<times> char \<times> string) list \<Rightarrow> error + (nat list \<times> char list \<times> string list)" where
  "parse_tuples [] = Inr ([], [], [])"
| "parse_tuples ((label, e, t, ds) # ms) =
     (if e = CHR ''>'' then Inl BigEndianNotSupported
      else case stoi ds of
        Inl err \<Rightarrow> Inl err
      | Inr w \<Rightarrow>
          (case parse_tuples ms of
             Inl err \<Rightarrow> Inl err
           | Inr (ws, ts, ls) \<Rightarrow> Inr (w # ws, t # ts, label # ls)))"

text \<open>
  The descriptor. The character after \<^verbatim>\<open>'descr': \<close> selects the simple or the structured
  form; the source reads it without a bounds check.
\<close>

definition parse_descr :: "string \<Rightarrow> error + (nat list \<times> char list \<times> string list)" where
  "parse_descr dict =
     (case find_str '''descr': '' dict of
        None \<Rightarrow> Inl MissingDescr
      | Some pos_start_desc \<Rightarrow>
          if length dict \<le> pos_start_desc + 9 then Inl UndefinedBehaviour
          else
            let c = dict ! (pos_start_desc + 9)
            in if c = CHR 0x27 then
                 (case regex_search match_descr (drop pos_start_desc dict) of
                    None \<Rightarrow> Inl CouldNotParseDescr
                  | Some (i, e, t, ds) \<Rightarrow>
                      if e = CHR ''>'' then Inl BigEndianNotSupported
                      else (case stoi ds of
                              Inl err \<Rightarrow> Inl err
                            | Inr w \<Rightarrow> Inr ([w], [t], [])))
               else if c = CHR ''['' then
                 (case find_from '']'' (pos_start_desc + 9) dict of
                    None \<Rightarrow> Inl MalformedListInDescr
                  | Some pos_end_list \<Rightarrow>
                      parse_tuples (tuple_matches 0
                        (take (pos_end_list - (pos_start_desc + 9))
                           (drop (pos_start_desc + 9) dict))))
               else Inl MalformedDescr)"

text \<open>
  \<^verbatim>\<open>parse_npy_dict\<close>. The checks come in the order of the source; \<^verbatim>\<open>buffer.back()\<close> on
  an empty buffer is a read outside the buffer.
\<close>

definition parse_npy_dict :: "string \<Rightarrow> error + parsed_header" where
  "parse_npy_dict buffer =
     (if buffer = [] then Inl UndefinedBehaviour
      else if last buffer \<noteq> CHR 0x0A then Inl MissingTerminatingNewline
      else if hd buffer \<noteq> CHR ''{'' then Inl MalformedDictionary
      else case parse_fortran_order buffer of
        Inl err \<Rightarrow> Inl err
      | Inr order \<Rightarrow>
          (case parse_shape buffer of
             Inl err \<Rightarrow> Inl err
           | Inr dims \<Rightarrow>
               (case parse_descr buffer of
                  Inl err \<Rightarrow> Inl err
                | Inr (ws, ts, ls) \<Rightarrow>
                    Inr \<lparr>ph_word_sizes = ws, ph_data_types = ts, ph_labels = ls,
                         ph_shape = dims, ph_memory_order = order\<rparr>)))"

subsection \<open>The preamble\<close>

definition npy_magic_string :: string where
  "npy_magic_string = [CHR 0x93] @ ''NUMPY''"

text \<open>\<^verbatim>\<open>endian_load<uint16_t, 2, order::little>\<close>.\<close>

definition load_le16 :: "char \<Rightarrow> char \<Rightarrow> nat" where
  "load_le16 lo hi = of_char lo + 256 * of_char hi"

text \<open>
  \<^verbatim>\<open>parse_npy_header(char const* buffer, ...)\<close>, the overload that reads from memory. The
  buffer is given as the bytes that may be read through the pointer.
\<close>

definition parse_npy_header_buffer :: "string \<Rightarrow> error + parsed_header" where
  "parse_npy_header_buffer buffer =
     (if length buffer < 10 then Inl UndefinedBehaviour
      else
        let major_version = buffer ! 6;
            minor_version = buffer ! 7;
            header_len = load_le16 (buffer ! 8) (buffer ! 9)
        in if \<not> (major_version = CHR 0x01 \<and> minor_version = CHR 0x00)
           then Inl VersionNotSupported
           else if length buffer < 10 + header_len then Inl UndefinedBehaviour
           else parse_npy_dict (take header_len (drop 10 buffer)))"

text \<open>
  \<^verbatim>\<open>parse_npy_header(std::istream& fs, ...)\<close>. The stream is the bytes still to be read;
  the result carries the bytes left after the header. The ten-byte array is not
  initialised, so a stream shorter than ten bytes leaves the checks reading
  indeterminate values; the dictionary buffer is zero-initialised, so a short read
  leaves zeros.
\<close>

definition parse_npy_header :: "string \<Rightarrow> error + (parsed_header \<times> string)" where
  "parse_npy_header fs =
     (if length fs < 10 then Inl UndefinedBehaviour
      else
        let buffer = take 10 fs
        in if take 6 buffer \<noteq> npy_magic_string then Inl MagicStringNotFound
           else
             let major_version = buffer ! 6;
                 minor_version = buffer ! 7
             in if major_version \<noteq> CHR 0x01 \<or> minor_version \<noteq> CHR 0x00
                then Inl VersionNotSupported
                else
                  let header_len = load_le16 (buffer ! 8) (buffer ! 9);
                      got = take header_len (drop 10 fs);
                      header_buffer = got @ replicate (header_len - length got) (CHR 0x00)
                  in (case parse_npy_dict header_buffer of
                        Inl err \<Rightarrow> Inl err
                      | Inr ph \<Rightarrow> Inr (ph, drop (10 + header_len) fs)))"

section \<open>The loaded array and its views\<close>

text \<open>\<^verbatim>\<open>std::accumulate\<close> over \<^verbatim>\<open>size_t\<close> values with a \<^verbatim>\<open>size_t\<close> accumulator.\<close>

definition accumulate_size_t :: "(nat \<Rightarrow> nat \<Rightarrow> nat) \<Rightarrow> nat \<Rightarrow> nat list \<Rightarrow> nat" where
  "accumulate_size_t f init xs = foldl (\<lambda>acc x. f acc x mod 2 ^ 64) init xs"

record NpyArray =
  arr_shape :: "nat list"
  arr_word_sizes :: "nat list"
  arr_labels :: "string list"
  arr_memory_order :: MemoryOrder
  arr_num_vals :: nat
  arr_total_value_size :: nat
  arr_buffer :: string

text \<open>The constructor: element count and record stride are derived.\<close>

definition make_NpyArray ::
  "nat list \<Rightarrow> nat list \<Rightarrow> string list \<Rightarrow> MemoryOrder \<Rightarrow> string \<Rightarrow> NpyArray" where
  "make_NpyArray shape word_sizes labels memory_order buffer =
     \<lparr>arr_shape = shape, arr_word_sizes = word_sizes, arr_labels = labels,
      arr_memory_order = memory_order,
      arr_num_vals = accumulate_size_t (*) 1 shape,
      arr_total_value_size = accumulate_size_t (+) 0 word_sizes,
      arr_buffer = buffer\<rparr>"

definition num_bytes :: "NpyArray \<Rightarrow> nat" where
  "num_bytes a = (arr_num_vals a * arr_total_value_size a) mod 2 ^ 64"

text \<open>
  \<^verbatim>\<open>compare_word_sizes<TArgs...>\<close>: the element sizes of the requested tuple type against
  the stored word sizes (\<^verbatim>\<open>std::equal\<close> with both ends given).
\<close>

definition compare_word_sizes :: "NpyArray \<Rightarrow> nat list \<Rightarrow> bool" where
  "compare_word_sizes a requested_type_sizes = (requested_type_sizes = arr_word_sizes a)"

text \<open>
  \<^verbatim>\<open>tuple_range<TArgs...>(force_check)\<close>. The range is given by the byte offsets of its two
  iterators in the buffer, together with the element sizes the iterators step by.
\<close>

definition tuple_range :: "NpyArray \<Rightarrow> nat list \<Rightarrow> bool \<Rightarrow> error + (nat \<times> nat \<times> nat list)" where
  "tuple_range a requested_type_sizes force_check =
     (if force_check \<and> \<not> compare_word_sizes a requested_type_sizes
      then Inl WordSizesDoNotMatch
      else Inr (0, (arr_num_vals a * arr_total_value_size a) mod 2 ^ 64, requested_type_sizes))"

text \<open>\<^verbatim>\<open>std::find\<close> in the labels: the index of the first label equal to the name.\<close>

fun find_label :: "string \<Rightarrow> string list \<Rightarrow> nat option" where
  "find_label name [] = None"
| "find_label name (l # ls) = (if l = name then Some 0 else map_option Suc (find_label name ls))"

text \<open>
  \<^verbatim>\<open>column_range<TValueType>(name)\<close>, with \<open>size_of\<close> for \<^verbatim>\<open>sizeof(TValueType)\<close>. The range
  is given by the byte offsets of its two iterators and their stride.
\<close>

definition column_range :: "NpyArray \<Rightarrow> nat \<Rightarrow> string \<Rightarrow> error + (nat \<times> nat \<times> nat)" where
  "column_range a size_of name =
     (case find_label name (arr_labels a) of
        None \<Rightarrow> Inl LabelNotFound
      | Some d \<Rightarrow>
          if length (arr_word_sizes a) \<le> d then Inl VectorAtOutOfRange
          else if arr_word_sizes a ! d \<noteq> size_of then Inl WordSizesDoNotMatch
          else
            let offset = sum_list (take d (arr_word_sizes a))
            in Inr (offset, offset + arr_total_value_size a * arr_num_vals a,
                    arr_total_value_size a))"

section \<open>Saving and loading files\<close>

text \<open>The files by name; a file is its bytes.\<close>

type_synonym filesystem = "string \<Rightarrow> string option"

text \<open>
  Writing to a stream at a position: the bytes replace what was there and extend the
  file where they reach past its end.
\<close>

definition write_at :: "nat \<Rightarrow> string \<Rightarrow> string \<Rightarrow> string" where
  "write_at pos bytes content = take pos content @ bytes @ drop (pos + length bytes) content"

text \<open>
  The conversions between \<^verbatim>\<open>size_t\<close> (64 bits) and \<^verbatim>\<open>int\<close> (32 bits, two's complement).
\<close>

definition size_t_to_int :: "nat \<Rightarrow> int" where
  "size_t_to_int n = (let m = int (n mod 2 ^ 32) in if m < 2 ^ 31 then m else m - 2 ^ 32)"

definition int_to_size_t :: "int \<Rightarrow> nat" where
  "int_to_size_t i = nat (i mod 2 ^ 64)"

text \<open>
  \<^verbatim>\<open>std::accumulate(shape.begin(), shape.end(), 1, std::multiplies<size_t>())\<close>: the
  initial value is an \<^verbatim>\<open>int\<close>, so each product is converted back to \<^verbatim>\<open>int\<close>; the
  result is then stored in a \<^verbatim>\<open>size_t\<close>.
\<close>

definition accumulate_int :: "nat list \<Rightarrow> int" where
  "accumulate_int shape =
     foldl (\<lambda>acc x. size_t_to_int ((int_to_size_t acc * x) mod 2 ^ 64)) 1 shape"

definition count_elements :: "nat list \<Rightarrow> nat" where
  "count_elements shape = int_to_size_t (accumulate_int shape)"

text \<open>
  The data handed to \<^verbatim>\<open>npy_save\<close> through its iterator: either contiguous memory, written
  in one piece, or any other iterator, read element by element. Both are given by the
  bytes of the elements in iteration order.
\<close>

datatype data_source = ContiguousMemory string | InputIterator string

text \<open>
  The loop of the second \<^verbatim>\<open>write_data\<close>: up to \<open>buffer_size\<close> elements are copied into a
  buffer and written, until \<open>n\<close> elements are written. The result is what the loop writes.
\<close>

function write_data_chunks :: "nat \<Rightarrow> nat \<Rightarrow> nat \<Rightarrow> string \<Rightarrow> string" where
  "write_data_chunks buffer_size size_elem n src =
     (if n = 0 \<or> buffer_size = 0 then []
      else
        let count = min buffer_size n
        in take (count * size_elem) src
           @ write_data_chunks buffer_size size_elem (n - count) (drop (count * size_elem) src))"
  by pat_completeness auto
termination
  by (relation "measure (\<lambda>(buffer_size, size_elem, n, src). n)") auto

declare write_data_chunks.simps [simp del]

text \<open>
  \<^verbatim>\<open>write_data(start, nels, fs)\<close>: the bytes appended to the stream. Reading more elements
  than the source holds is a read outside the caller's data. For contiguous memory the
  byte count, a \<^verbatim>\<open>size_t\<close>, is passed to \<^verbatim>\<open>std::ostream::write\<close> as the signed
  \<^verbatim>\<open>std::streamsize\<close>: from \<open>2\<^sup>6\<^sup>3\<close> on it is negative there, and nothing is written.
\<close>

definition write_data :: "data_source \<Rightarrow> nat \<Rightarrow> nat \<Rightarrow> error + string" where
  "write_data start size_elem nels =
     (case start of
        ContiguousMemory mem \<Rightarrow>
          (let n = (nels * size_elem) mod 2 ^ 64
           in if 2 ^ 63 \<le> n then Inr []
              else if length mem < n then Inl UndefinedBehaviour
              else Inr (take n mem))
      | InputIterator src \<Rightarrow>
          if length src < nels * size_elem then Inl UndefinedBehaviour
          else Inr (write_data_chunks (min nels 0x10000) size_elem nels src))"

text \<open>
  The end of \<^verbatim>\<open>npy_save\<close>, common to both modes: the header for \<open>true_data_shape\<close> is
  written at the start of the file, the data of the call at its end. \<open>content\<close> is the
  file as opened.
\<close>

definition write_header_and_data ::
  "endianness \<Rightarrow> string \<Rightarrow> string \<Rightarrow> value_kind \<Rightarrow> nat \<Rightarrow> data_source \<Rightarrow> nat list \<Rightarrow> nat list
     \<Rightarrow> MemoryOrder \<Rightarrow> filesystem \<Rightarrow> (error + unit) \<times> filesystem" where
  "write_header_and_data e content fname kind size_of start shape true_data_shape memory_order files =
     (case create_npy_header e true_data_shape (map_type kind) (size_t_to_int size_of) memory_order of
        Inl err \<Rightarrow> (Inl err, files(fname \<mapsto> content))
      | Inr header \<Rightarrow>
          let nels = count_elements shape;
              content = write_at 0 header content
          in (case write_data start size_of nels of
                Inl err \<Rightarrow> (Inl err, files(fname \<mapsto> content))
              | Inr bytes \<Rightarrow> (Inr (), files(fname \<mapsto> content @ bytes))))"

text \<open>
  \<^verbatim>\<open>npy_save(fname, start, shape, mode, memory_order)\<close> for an element type of the given
  kind and size. In mode \<^verbatim>\<open>"a"\<close> on an existing file the header is parsed and compared
  with the new data; otherwise the file is created or truncated.
\<close>

definition npy_save ::
  "endianness \<Rightarrow> string \<Rightarrow> value_kind \<Rightarrow> nat \<Rightarrow> data_source \<Rightarrow> nat list \<Rightarrow> string
     \<Rightarrow> MemoryOrder \<Rightarrow> filesystem \<Rightarrow> (error + unit) \<times> filesystem" where
  "npy_save e fname kind size_of start shape mode memory_order files =
     (case (if mode = ''a'' then files fname else None) of
        Some content \<Rightarrow>
          (case parse_npy_header content of
             Inl err \<Rightarrow> (Inl err, files)
           | Inr (ph, rest) \<Rightarrow>
               if ph_word_sizes ph = [] then (Inl VectorAtOutOfRange, files)
               else if size_of \<noteq> hd (ph_word_sizes ph) then (Inl ElementSizeNotMatching, files)
               else if ph_data_types ph = [] then (Inl VectorAtOutOfRange, files)
               else if map_type kind \<noteq> hd (ph_data_types ph) then (Inl DataTypeNotMatching, files)
               else if memory_order \<noteq> ph_memory_order ph then (Inl MemoryOrderNotMatching, files)
               else if length (ph_shape ph) \<noteq> length shape then (Inl RanksNotMatching, files)
               else if shape = [] then (Inl UndefinedBehaviour, files)
               else if tl shape \<noteq> tl (ph_shape ph) then (Inl MisshapedData, files)
               else
                 let true_data_shape =
                       (if memory_order = C
                        then ((hd (ph_shape ph) + hd shape) mod 2 ^ 64) # tl (ph_shape ph)
                        else butlast (ph_shape ph) @ [(last (ph_shape ph) + last shape) mod 2 ^ 64])
                 in write_header_and_data e content fname kind size_of start shape
                      true_data_shape memory_order files)
      | None \<Rightarrow>
          write_header_and_data e [] fname kind size_of start shape shape memory_order files)"

text \<open>
  Modelled from the spec: the mapping of a file region (done by a library outside the
  sources) fails when the region exceeds the file, and otherwise gives the bytes of the
  region.

  \<^verbatim>\<open>npy_load(fname, memory_mapped)\<close>. Without mapping the buffer is zero-initialised and
  filled by one read, which may come short.
\<close>

definition npy_load :: "string \<Rightarrow> bool \<Rightarrow> filesystem \<Rightarrow> error + NpyArray" where
  "npy_load fname memory_mapped files =
     (case files fname of
        None \<Rightarrow> Inl UnableToOpenFile
      | Some content \<Rightarrow>
          (case parse_npy_header content of
             Inl err \<Rightarrow> Inl err
           | Inr (ph, rest) \<Rightarrow>
               let num_vals = accumulate_size_t (*) 1 (ph_shape ph);
                   total_value_size = accumulate_size_t (+) 0 (ph_word_sizes ph);
                   num_bytes = (total_value_size * num_vals) mod 2 ^ 64
               in if \<not> memory_mapped
                  then Inr (make_NpyArray (ph_shape ph) (ph_word_sizes ph) (ph_labels ph)
                         (ph_memory_order ph)
                         (take num_bytes rest @ replicate (num_bytes - length rest) (CHR 0x00)))
                  else if length rest < num_bytes then Inl MappingFailed
                  else Inr (make_NpyArray (ph_shape ph) (ph_word_sizes ph) (ph_labels ph)
                         (ph_memory_order ph) (take num_bytes rest))))"

subsection \<open>Structured data\<close>

text \<open>
  \<^verbatim>\<open>tuple_info<T>::offsets\<close>: the offset of each element in the packed tuple, the sum of
  the sizes before it.
\<close>

fun calc_offsets :: "nat \<Rightarrow> nat list \<Rightarrow> nat list" where
  "calc_offsets off [] = []"
| "calc_offsets off (s # ss) = off # calc_offsets (off + s) ss"

text \<open>
  \<^verbatim>\<open>fill\<close>: the bytes of each element of the tuple are copied to the buffer at the
  element's offset.
\<close>

fun fill :: "string list \<Rightarrow> nat list \<Rightarrow> string \<Rightarrow> string" where
  "fill (elem # elems) (off # offs) buffer = fill elems offs (write_at off elem buffer)"
| "fill elems offs buffer = buffer"

definition pack_tuple :: "nat list \<Rightarrow> string list \<Rightarrow> string" where
  "pack_tuple sizes tup = fill tup (calc_offsets 0 sizes) (replicate (sum_list sizes) (CHR 0x00))"

text \<open>
  The loop of \<^verbatim>\<open>write_data_tuple\<close>: up to \<open>buffer_size\<close> tuples are packed into a buffer and
  written, until \<open>n\<close> tuples are written.
\<close>

function write_tuple_chunks :: "nat \<Rightarrow> nat list \<Rightarrow> nat \<Rightarrow> string list list \<Rightarrow> string" where
  "write_tuple_chunks buffer_size sizes n tuples =
     (if n = 0 \<or> buffer_size = 0 then []
      else
        let count = min buffer_size n
        in concat (map (pack_tuple sizes) (take count tuples))
           @ write_tuple_chunks buffer_size sizes (n - count) (drop count tuples))"
  by pat_completeness auto
termination
  by (relation "measure (\<lambda>(buffer_size, sizes, n, tuples). n)") auto

declare write_tuple_chunks.simps [simp del]

definition write_data_tuple :: "string list list \<Rightarrow> nat list \<Rightarrow> nat \<Rightarrow> error + string" where
  "write_data_tuple start sizes nels =
     (if length start < nels then Inl UndefinedBehaviour
      else Inr (write_tuple_chunks (min nels 0x10000) sizes nels start))"

text \<open>
  \<^verbatim>\<open>npy_save(fname, labels, first, shape, mode, memory_order)\<close> for tuples whose elements
  have the given kinds and sizes; each tuple of the data is the list of the bytes of its
  elements.

  In the branch for appending the source declares a second, empty vector named
  \<^verbatim>\<open>shape\<close>, which hides the argument up to the end of the branch: the rank of the file
  is compared with 0, and with rank 0 the first elements of two empty vectors are added.
\<close>

definition npy_save_struct ::
  "endianness \<Rightarrow> string \<Rightarrow> string list \<Rightarrow> (value_kind \<times> nat) list \<Rightarrow> string list list \<Rightarrow> nat list
     \<Rightarrow> string \<Rightarrow> MemoryOrder \<Rightarrow> filesystem \<Rightarrow> (error + unit) \<times> filesystem" where
  "npy_save_struct e fname labels types first shape mode memory_order files =
     (let dtypes = map (\<lambda>(kind, size_of). map_type kind) types;
          sizes = map (\<lambda>(kind, size_of). size_of) types
      in if length labels \<noteq> length types then (Inl LabelCountMismatch, files)
         else
           (case (if mode = ''a'' then files fname else None) of
              Some content \<Rightarrow>
                (case parse_npy_header content of
                   Inl err \<Rightarrow> (Inl err, files)
                 | Inr (ph, rest) \<Rightarrow>
                     if length types \<noteq> length (ph_labels ph) then (Inl SizesNotMatching, files)
                     else if length dtypes < length (ph_data_types ph)
                     then (Inl UndefinedBehaviour, files)
                     else if ph_data_types ph \<noteq> take (length (ph_data_types ph)) dtypes
                     then (Inl DataTypeNotMatching, files)
                     else if length sizes < length (ph_word_sizes ph)
                     then (Inl UndefinedBehaviour, files)
                     else if ph_word_sizes ph \<noteq> take (length (ph_word_sizes ph)) sizes
                     then (Inl ElementSizeNotMatching, files)
                     else if memory_order \<noteq> ph_memory_order ph
                     then (Inl MemoryOrderNotMatching, files)
                     else if length (ph_shape ph) \<noteq> length ([] :: nat list)
                     then (Inl RanksNotMatching, files)
                     else (Inl UndefinedBehaviour, files))
            | None \<Rightarrow>
                (case create_npy_header_struct e shape labels dtypes sizes memory_order of
                   Inl err \<Rightarrow> (Inl err, files(fname \<mapsto> []))
                 | Inr header \<Rightarrow>
                     let nels = count_elements shape;
                         content = write_at 0 header []
                     in (case write_data_tuple first sizes nels of
                           Inl err \<Rightarrow> (Inl err, files(fname \<mapsto> content))
                         | Inr bytes \<Rightarrow> (Inr (), files(fname \<mapsto> content @ bytes))))))"

section \<open>The streaming writer for archives\<close>

text \<open>
  \<^verbatim>\<open>additional_parameters\<close>: the header, how much of it is still to be sent, and the side
  buffer for one element with its fill level and the number of its bytes already sent.
\<close>

record additional_parameters =
  ap_npyheader :: string
  ap_buffer_capacity :: nat
  ap_header_bytes_remaining :: nat
  ap_bytes_buffer_written :: nat
  ap_buffer_size :: nat
  ap_buffer :: string

definition make_additional_parameters :: "string \<Rightarrow> nat \<Rightarrow> additional_parameters" where
  "make_additional_parameters header sz =
     \<lparr>ap_npyheader = header, ap_buffer_capacity = sz,
      ap_header_bytes_remaining = length header, ap_bytes_buffer_written = 0,
      ap_buffer_size = 0, ap_buffer = replicate sz (CHR 0x00)\<rparr>"

text \<open>
  What the producer of \<^verbatim>\<open>npz_save\<close> captures: the iterator (the bytes of the elements
  still to come), the number of elements, the element size and the count of elements
  taken so far.
\<close>

record producer =
  pr_it :: string
  pr_nels :: nat
  pr_wordsize :: nat
  pr_elements_written_total :: nat

text \<open>
  The producer, called with the free space of the sink's buffer: as many whole elements
  as fit are written there; when elements remain and space is left that holds no whole
  element, one more element goes to the side buffer. The result is the bytes written
  to the sink's buffer.
\<close>

definition npz_save_callback ::
  "nat \<Rightarrow> additional_parameters \<Rightarrow> producer \<Rightarrow> error + (string \<times> additional_parameters \<times> producer)" where
  "npz_save_callback space ap pr =
     (let wordsize = pr_wordsize pr;
          n_tbw = min (space div wordsize)
                    ((pr_nels pr + 2 ^ 64 - pr_elements_written_total pr) mod 2 ^ 64);
          written = take (n_tbw * wordsize) (pr_it pr);
          it = drop (n_tbw * wordsize) (pr_it pr);
          total = pr_elements_written_total pr + n_tbw
      in if length (pr_it pr) < n_tbw * wordsize then Inl UndefinedBehaviour
         else if total < pr_nels pr \<and> wordsize * n_tbw < space
         then
           if length it < wordsize then Inl UndefinedBehaviour
           else Inr (written,
                  ap\<lparr>ap_buffer := take wordsize it, ap_buffer_size := wordsize\<rparr>,
                  pr\<lparr>pr_it := drop wordsize it, pr_elements_written_total := total + 1\<rparr>)
         else Inr (written, ap, pr\<lparr>pr_it := it, pr_elements_written_total := total\<rparr>))"

text \<open>
  \<^verbatim>\<open>npzwrite_source_callback\<close> for the command \<^verbatim>\<open>ZIP_SOURCE_READ\<close> with a request of
  \<open>len\<close> bytes: the bytes handed to the sink and the state after the call. The number
  of header bytes copied is the minimum of the request and the size of the whole header;
  copying more than the header has left reads past its end.
\<close>

definition npzwrite_source_read ::
  "nat \<Rightarrow> additional_parameters \<times> producer
     \<Rightarrow> error + (string \<times> (additional_parameters \<times> producer))" where
  "npzwrite_source_read len st =
     (let ap = fst st; pr = snd st;
          tbw = (if ap_header_bytes_remaining ap \<noteq> 0
                 then min len (length (ap_npyheader ap)) else 0);
          from_header = take tbw (drop (length (ap_npyheader ap) - ap_header_bytes_remaining ap)
                          (ap_npyheader ap));
          ap = ap\<lparr>ap_header_bytes_remaining :=
                     (ap_header_bytes_remaining ap + 2 ^ 64 - tbw) mod 2 ^ 64\<rparr>;
          bytes_written = tbw
      in if length from_header < tbw then Inl UndefinedBehaviour
         else if ap_header_bytes_remaining ap = 0
         then
           let buffer_tbw = ap_buffer_size ap - ap_bytes_buffer_written ap;
               from_buffer = take (min buffer_tbw (len - bytes_written))
                               (drop (ap_bytes_buffer_written ap) (ap_buffer ap));
               ap = ap\<lparr>ap_bytes_buffer_written :=
                          ap_bytes_buffer_written ap + length from_buffer\<rparr>;
               bytes_written = bytes_written + length from_buffer
           in if ap_bytes_buffer_written ap = ap_buffer_size ap
              then
                (case npz_save_callback (len - bytes_written)
                        (ap\<lparr>ap_bytes_buffer_written := 0, ap_buffer_size := 0\<rparr>) pr of
                   Inl err \<Rightarrow> Inl err
                 | Inr (produced, ap, pr) \<Rightarrow> Inr (from_header @ from_buffer @ produced, (ap, pr)))
              else Inr (from_header @ from_buffer, (ap, pr))
         else Inr (from_header, (ap, pr)))"

text \<open>
  The state \<^verbatim>\<open>npz_save\<close> hands to the archive library; the header is the one
  \<^verbatim>\<open>create_npy_header\<close> returns for the shape.
\<close>

definition npz_save_state ::
  "endianness \<Rightarrow> value_kind \<Rightarrow> nat \<Rightarrow> string \<Rightarrow> nat list \<Rightarrow> MemoryOrder
     \<Rightarrow> error + (additional_parameters \<times> producer)" where
  "npz_save_state e kind wordsize start shape memory_order =
     (case create_npy_header e shape (map_type kind) (size_t_to_int wordsize) memory_order of
        Inl err \<Rightarrow> Inl err
      | Inr header \<Rightarrow>
          Inr (make_additional_parameters header wordsize,
               \<lparr>pr_it = start, pr_nels = count_elements shape, pr_wordsize = wordsize,
                pr_elements_written_total = 0\<rparr>))"

text \<open>
  The archive library as the writer sees it: a sequence of read requests, each with a
  length of the library's choosing. The result is all bytes handed over, in order.
\<close>

fun pull_all :: "nat list \<Rightarrow> additional_parameters \<times> producer \<Rightarrow> error + string" where
  "pull_all [] st = Inr []"
| "pull_all (len # lens) st =
     (case npzwrite_source_read len st of
        Inl err \<Rightarrow> Inl err
      | Inr (bytes, st') \<Rightarrow>
          (case pull_all lens st' of Inl err \<Rightarrow> Inl err | Inr rest \<Rightarrow> Inr (bytes @ rest)))"

section \<open>Vocabulary of the properties\<close>

text \<open>
  The property of a generated header: it is the ten-byte preamble followed by a
  dictionary whose length plus 10 is a multiple of 16 and whose last byte, at position
  \<open>10 + length dict - 1\<close> of the header, is the newline.
\<close>

definition padded_header :: "string \<Rightarrow> bool" where
  "padded_header h =
     (\<exists>dict. h = npy_preamble (length dict) @ dict \<and> (10 + length dict) mod 16 = 0
        \<and> h ! (10 + length dict - 1) = CHR 0x0A)"

text \<open>
  The text of a descriptor \<^verbatim>\<open>'<endian><code><width>'\<close>, of a tuple
  \<^verbatim>\<open>('label', '<endian><code><width>')\<close> and of a comma-separated sequence of tuples, as
  the format writes them; a tuple is given by label, endian marker, type code and the
  digits of the width.
\<close>

definition is_letter :: "char \<Rightarrow> bool" where
  "is_letter c = (let n = (of_char c :: nat) in (65 \<le> n \<and> n \<le> 90) \<or> (97 \<le> n \<and> n \<le> 122))"

definition descr_text :: "char \<Rightarrow> char \<Rightarrow> string \<Rightarrow> string" where
  "descr_text e t ds = [CHR 0x27, e, t] @ ds @ [CHR 0x27]"

fun tuple_text :: "string \<times> char \<times> char \<times> string \<Rightarrow> string" where
  "tuple_text (label, e, t, ds) =
     ''('' @ [CHR 0x27] @ label @ [CHR 0x27] @ '', '' @ descr_text e t ds @ '')''"

fun tuples_text :: "(string \<times> char \<times> char \<times> string) list \<Rightarrow> string" where
  "tuples_text [] = []"
| "tuples_text [x] = tuple_text x"
| "tuples_text (x # y # zs) = tuple_text x @ '', '' @ tuples_text (y # zs)"

text \<open>
  A tuple in the form the parser's expression for tuples describes: a non-empty label of
  letters, digits and underscores, an endian marker, a letter as type code and a
  non-empty width of digits.
\<close>

fun wf_tuple :: "string \<times> char \<times> char \<times> string \<Rightarrow> bool" where
  "wf_tuple (label, e, t, ds) =
     (label \<noteq> [] \<and> list_all is_word label \<and> e \<in> set ''<>|'' \<and> is_letter t
      \<and> ds \<noteq> [] \<and> list_all is_digit ds)"

text \<open>
  Two notions for reasoning about searches: moving a search result to the right, and a
  stretch of text \<open>B\<close> (followed by \<open>s\<close>) in which an expression matches nowhere.
\<close>

definition shift :: "nat \<Rightarrow> (nat \<times> 'a) option \<Rightarrow> (nat \<times> 'a) option" where
  "shift n = map_option (\<lambda>(i, r). (n + i, r))"

definition no_match :: "(string \<Rightarrow> 'a option) \<Rightarrow> string \<Rightarrow> string \<Rightarrow> bool" where
  "no_match m B s = (\<forall>j < length B. m (drop j (B @ s)) = None)"

text \<open>
  The part of a generated dictionary after the descriptor, up to the closing brace,
  without the first character (the quote or bracket that ends the descriptor).
\<close>

definition dict_tail :: "MemoryOrder \<Rightarrow> nat list \<Rightarrow> string" where
  "dict_tail memory_order shape =
     '', 'fortran_order': '' @ memory_order_text memory_order
     @ '', 'shape': ('' @ append_shape shape @ ''), }''"

text \<open>The bytes behind a data source.\<close>

fun source_bytes :: "data_source \<Rightarrow> string" where
  "source_bytes (ContiguousMemory mem) = mem"
| "source_bytes (InputIterator src) = src"

section \<open>Properties of header generation\<close>

lemma length_le_bytes: "length (le_bytes k v) = k"
  by (induction k arbitrary: v) auto

lemma length_npy_preamble: "length (npy_preamble n) = 10"
  by (simp add: npy_preamble_def length_le_bytes)

lemma pad_dict_length: "(10 + length (pad_dict d)) mod 16 = 0"
proof -
  define r where "r = 16 - (10 + length d) mod 16"
  have r: "0 < r" "r \<le> 16" "(10 + length d) mod 16 + r = 16"
    unfolding r_def using mod_less_divisor [of 16 "10 + length d"] by auto
  have "length (pad_dict d) = length d + r"
    using r(1) by (simp add: pad_dict_def Let_def r_def [symmetric])
  then have "10 + length (pad_dict d) = (10 + length d) div 16 * 16 + ((10 + length d) mod 16 + r)"
    by simp
  also have "\<dots> = (10 + length d) div 16 * 16 + 16"
    using r(3) by simp
  finally show ?thesis by simp
qed

lemma pad_dict_last: "pad_dict d \<noteq> [] \<and> last (pad_dict d) = CHR 0x0A"
  by (simp add: pad_dict_def Let_def)

lemma preamble_dict_last:
  assumes "dict \<noteq> []"
  shows "(npy_preamble n @ dict) ! (10 + length dict - 1) = last dict"
proof -
  have "(npy_preamble n @ dict) ! (10 + (length dict - 1)) = dict ! (length dict - 1)"
    using nth_append_length_plus [of "npy_preamble n" dict "length dict - 1"]
    by (simp add: length_npy_preamble)
  moreover have "10 + (length dict - 1) = 10 + length dict - 1"
    using assms by (cases dict) auto
  ultimately show ?thesis
    using assms by (simp add: last_conv_nth)
qed

lemma padded_header_pad_dict: "padded_header (npy_preamble (length (pad_dict d)) @ pad_dict d)"
  unfolding padded_header_def
  using pad_dict_length [of d] pad_dict_last [of d] preamble_dict_last [of "pad_dict d"]
  by (intro exI [of _ "pad_dict d"]) simp

text \<open>
  Claim C2. Every header that \<open>create_npy_header\<close> returns, in either overload and for
  every shape, dtype code, word size and memory order, has \<open>10 + dictionary length\<close> a
  multiple of 16 and the newline as its final dictionary byte; a header is returned for
  every shape with at least one dimension (and, for the structured overload, argument
  lists of equal length).
\<close>

theorem create_npy_header_padding:
  "(shape \<noteq> [] \<longrightarrow>
      (\<exists>h. create_npy_header e shape dtype wordsize memory_order = Inr h \<and> padded_header h))
   \<and> (shape \<noteq> [] \<and> length labels = length dtypes \<and> length dtypes = length sizes \<longrightarrow>
      (\<exists>h. create_npy_header_struct e shape labels dtypes sizes memory_order = Inr h
         \<and> padded_header h))
   \<and> (\<forall>h. create_npy_header e shape dtype wordsize memory_order = Inr h \<longrightarrow> padded_header h)
   \<and> (\<forall>h. create_npy_header_struct e shape labels dtypes sizes memory_order = Inr h
         \<longrightarrow> padded_header h)"
proof (intro conjI impI allI)
  assume "shape \<noteq> []"
  then show "\<exists>h. create_npy_header e shape dtype wordsize memory_order = Inr h \<and> padded_header h"
    by (simp add: create_npy_header_def Let_def padded_header_pad_dict)
next
  assume "shape \<noteq> [] \<and> length labels = length dtypes \<and> length dtypes = length sizes"
  then show "\<exists>h. create_npy_header_struct e shape labels dtypes sizes memory_order = Inr h
      \<and> padded_header h"
    by (simp add: create_npy_header_struct_def Let_def padded_header_pad_dict)
next
  fix h
  assume "create_npy_header e shape dtype wordsize memory_order = Inr h"
  then show "padded_header h"
    by (auto simp: create_npy_header_def Let_def padded_header_pad_dict split: if_splits)
next
  fix h
  assume "create_npy_header_struct e shape labels dtypes sizes memory_order = Inr h"
  then show "padded_header h"
    by (auto simp: create_npy_header_struct_def Let_def padded_header_pad_dict split: if_splits)
qed

theorem create_npy_header_padding_witness:
  "[8, 4, 2] \<noteq> ([] :: nat list)
   \<and> length [''a'', ''b''] = length ''if'' \<and> length ''if'' = length [4, 8 :: nat]
   \<and> (\<exists>h. create_npy_header LittleEndian [8, 4, 2] (CHR ''u'') 4 C = Inr h \<and> padded_header h)
   \<and> (\<exists>h. create_npy_header_struct LittleEndian [8, 4, 2] [''a'', ''b''] ''if'' [4, 8] C = Inr h
         \<and> padded_header h)"
  using create_npy_header_padding
    [of "[8, 4, 2]" LittleEndian "CHR ''u''" 4 C "[''a'', ''b'']" "''if''" "[4, 8]"]
  by simp

section \<open>Properties of the views\<close>

lemma column_range_checks:
  assumes "column_range a size_of name = Inr v"
  shows "\<exists>d. find_label name (arr_labels a) = Some d \<and> d < length (arr_word_sizes a)
           \<and> arr_word_sizes a ! d = size_of"
  using assms
  by (auto simp: column_range_def Let_def split: option.splits if_splits)

text \<open>
  Claim C10. \<open>tuple_range\<close> compares the requested element widths with the stored word
  sizes only when \<open>force_check\<close> is set: with \<open>force_check\<close> and differing widths it
  throws; without \<open>force_check\<close> it returns the view whatever the requested widths are.
  \<open>column_range\<close> returns a view only when the stored width of the named column is the
  requested one.
\<close>

theorem tuple_range_checks_only_when_forced:
  "(requested \<noteq> arr_word_sizes a \<longrightarrow> tuple_range a requested True = Inl WordSizesDoNotMatch)
   \<and> tuple_range a requested False
       = Inr (0, (arr_num_vals a * arr_total_value_size a) mod 2 ^ 64, requested)
   \<and> (requested = arr_word_sizes a \<longrightarrow> tuple_range a requested True = tuple_range a requested False)
   \<and> (\<forall>v. column_range a size_of name = Inr v \<longrightarrow>
         (\<exists>d. find_label name (arr_labels a) = Some d \<and> d < length (arr_word_sizes a)
            \<and> arr_word_sizes a ! d = size_of))"
  using column_range_checks [of a size_of name]
  by (simp add: tuple_range_def compare_word_sizes_def)

theorem tuple_range_checks_only_when_forced_witness:
  "[4, 4] \<noteq> arr_word_sizes (make_NpyArray [3] [4, 1, 2] [''a'', ''b'', ''c''] C (replicate 21 (CHR 0x00)))
   \<and> tuple_range (make_NpyArray [3] [4, 1, 2] [''a'', ''b'', ''c''] C (replicate 21 (CHR 0x00)))
        [4, 4] True = Inl WordSizesDoNotMatch
   \<and> tuple_range (make_NpyArray [3] [4, 1, 2] [''a'', ''b'', ''c''] C (replicate 21 (CHR 0x00)))
        [4, 4] False = Inr (0, 21, [4, 4])
   \<and> column_range (make_NpyArray [3] [4, 1, 2] [''a'', ''b'', ''c''] C (replicate 21 (CHR 0x00)))
        4 ''b'' = Inl WordSizesDoNotMatch"
  using tuple_range_checks_only_when_forced
    [of "[4, 4]" "make_NpyArray [3] [4, 1, 2] [''a'', ''b'', ''c''] C (replicate 21 (CHR 0x00))" 4 "''b''"]
  by (simp add: make_NpyArray_def accumulate_size_t_def column_range_def)

section \<open>Evaluation on concrete inputs\<close>

lemma length_Cons_plus: "length (x # xs) = length xs + 1"
  by simp

lemma replicate_num: "replicate (numeral k) x = x # replicate (pred_numeral k) x"
  by (simp add: numeral_eq_Suc)

lemma le_bytes_2: "le_bytes 2 v = [char_of (v mod 256), char_of (v div 256)]"
  by (simp add: numeral_2_eq_2)

lemma le_bytes_4:
  "le_bytes 4 v = [char_of (v mod 256), char_of (v div 256 mod 256),
     char_of (v div 256 div 256 mod 256), char_of (v div 256 div 256 div 256 mod 256)]"
proof -
  have "(4::nat) = Suc (Suc (Suc (Suc 0)))" by simp
  then show ?thesis by (simp only: le_bytes.simps)
qed

lemma BigEndianTest_simps:
  "BigEndianTest LittleEndian = CHR ''<''" "BigEndianTest BigEndian = CHR ''>''"
  by (simp_all add: BigEndianTest_def host_bytes_def le_bytes_4 char_of_eq_iff)

lemmas header_eval =
  create_npy_header_def create_npy_header_struct_def BigEndianTest_simps
  to_string_int_def to_string.simps digit_char_def memory_order_text_def append_shape_def
  pad_dict_def npy_preamble_def le_bytes_2 char_of_def bit_Suc_0_iff length_Cons_plus
  replicate_num

lemmas save_eval =
  npy_save_def write_header_and_data_def count_elements_def accumulate_int_def
  size_t_to_int_def int_to_size_t_def write_data_def write_at_def

lemmas load_eval =
  npy_load_def make_NpyArray_def accumulate_size_t_def

section \<open>Properties of header parsing\<close>

lemmas parse_eval =
  parse_npy_header_buffer_def parse_npy_header_def Let_def load_le16_def
  parse_npy_dict_def parse_fortran_order_def parse_shape_def parse_descr_def
  find_str_def find_from_def match_fortran_order_def match_descr_def match_tuple_def
  is_digit_def is_word_def is_Az_def stoi_def digits_value_def npy_magic_string_def

lemma parse_npy_header_checks_magic:
  "10 \<le> length fs \<Longrightarrow> take 6 fs \<noteq> npy_magic_string \<Longrightarrow> parse_npy_header fs = Inl MagicStringNotFound"
  by (simp add: parse_npy_header_def Let_def min_def)

lemma parse_npy_header_checks_magic_example:
  "parse_npy_header (''NOTNPY'' @ [CHR 0x01, CHR 0x00, CHR 0x46, CHR 0x00]
       @ ''{'descr': '<u4', 'fortran_order': False, 'shape': (8, 4, 2), }       '' @ [CHR 0x0A])
     = Inl MagicStringNotFound"
  by (simp add: parse_eval)

text \<open>
  Claim C8, at an input on which the two entry points differ. The ten bytes in front of
  a well-formed dictionary carry the version 1.0 but not the magic string: the overload
  reading from a stream refuses them (the lemma above), the overload reading from memory
  parses the dictionary.
\<close>

theorem parse_npy_header_buffer_skips_magic:
  "parse_npy_header_buffer (''NOTNPY'' @ [CHR 0x01, CHR 0x00, CHR 0x46, CHR 0x00]
       @ ''{'descr': '<u4', 'fortran_order': False, 'shape': (8, 4, 2), }       '' @ [CHR 0x0A])
     = Inr \<lparr>ph_word_sizes = [4], ph_data_types = ''u'', ph_labels = [],
            ph_shape = [8, 4, 2], ph_memory_order = C\<rparr>"
  by (simp add: parse_eval)

text \<open>
  Claim C9 as stated fails: for a plain header the parser stores one word size and one
  type code, and no label at all.
\<close>

theorem plain_header_labels_counterexample:
  "parse_npy_dict
     (''{'descr': '<u4', 'fortran_order': False, 'shape': (8, 4, 2), }       '' @ [CHR 0x0A])
     = Inr \<lparr>ph_word_sizes = [4], ph_data_types = ''u'', ph_labels = [],
            ph_shape = [8, 4, 2], ph_memory_order = C\<rparr>
   \<and> length (ph_labels \<lparr>ph_word_sizes = [4], ph_data_types = ''u'', ph_labels = [],
            ph_shape = [8, 4, 2], ph_memory_order = C\<rparr>) \<noteq> 1"
  by (simp add: parse_eval)

lemma parse_descr_plain:
  assumes "parse_descr dict = Inr (ws, ts, ls)"
    and "find_str '''descr': '' dict = Some p"
    and "dict ! (p + 9) = CHR 0x27"
  shows "length ws = 1 \<and> length ts = 1 \<and> ls = []"
  using assms
  by (auto simp: parse_descr_def Let_def split: if_splits option.splits sum.splits)

text \<open>
  Claim C9, amended. After a successful parse of a plain header (the value of
  \<^verbatim>\<open>'descr'\<close> starts with a quote), the word sizes and the type codes each have length 1
  and the labels are empty.
\<close>

theorem plain_header_fields:
  assumes "parse_npy_dict dict = Inr ph"
    and "find_str '''descr': '' dict = Some p"
    and "dict ! (p + 9) = CHR 0x27"
  shows "length (ph_word_sizes ph) = 1 \<and> length (ph_data_types ph) = 1 \<and> ph_labels ph = []"
proof -
  from assms(1) obtain ws ts ls where d: "parse_descr dict = Inr (ws, ts, ls)"
    and ph: "ph_word_sizes ph = ws" "ph_data_types ph = ts" "ph_labels ph = ls"
    by (auto simp: parse_npy_dict_def split: if_splits sum.splits)
  from parse_descr_plain [OF d assms(2) assms(3)] ph show ?thesis by simp
qed

theorem plain_header_fields_witness:
  "parse_npy_dict
     (''{'descr': '<u4', 'fortran_order': False, 'shape': (8, 4, 2), }       '' @ [CHR 0x0A])
     = Inr \<lparr>ph_word_sizes = [4], ph_data_types = ''u'', ph_labels = [],
            ph_shape = [8, 4, 2], ph_memory_order = C\<rparr>
   \<and> find_str '''descr': ''
       (''{'descr': '<u4', 'fortran_order': False, 'shape': (8, 4, 2), }       '' @ [CHR 0x0A])
     = Some 1
   \<and> (''{'descr': '<u4', 'fortran_order': False, 'shape': (8, 4, 2), }       '' @ [CHR 0x0A])
       ! (1 + 9) = CHR 0x27
   \<and> length (ph_word_sizes \<lparr>ph_word_sizes = [4], ph_data_types = ''u'', ph_labels = [],
            ph_shape = [8, 4, 2], ph_memory_order = C\<rparr>) = 1"
proof -
  let ?d = "''{'descr': '<u4', 'fortran_order': False, 'shape': (8, 4, 2), }       '' @ [CHR 0x0A]"
  let ?ph = "\<lparr>ph_word_sizes = [4], ph_data_types = ''u'', ph_labels = [],
            ph_shape = [8, 4, 2], ph_memory_order = C\<rparr>"
  have a: "parse_npy_dict ?d = Inr ?ph" by (simp add: parse_eval)
  have b: "find_str '''descr': '' ?d = Some 1" by (simp add: find_str_def)
  have c: "?d ! (1 + 9) = CHR 0x27" by simp
  from plain_header_fields [OF a b c] a b c show ?thesis by simp
qed

subsection \<open>The expressions of the parser on well-formed text\<close>

lemma quote_not_digit: "is_digit c \<Longrightarrow> c \<noteq> CHR 0x27"
  by (auto simp: is_digit_def)

lemma quote_not_word: "is_word c \<Longrightarrow> c \<noteq> CHR 0x27"
  by (auto simp: is_word_def)

lemma letter_is_Az: "is_letter c \<Longrightarrow> is_Az c"
  by (auto simp: is_letter_def is_Az_def Let_def)

lemma takeWhile_stop:
  "list_all P xs \<Longrightarrow> \<not> P y \<Longrightarrow> takeWhile P (xs @ y # ys) = xs"
  by (induction xs) auto

lemma dropWhile_stop:
  "list_all P xs \<Longrightarrow> \<not> P y \<Longrightarrow> dropWhile P (xs @ y # ys) = y # ys"
  by (induction xs) auto

lemma regex_search_hit: "m s = Some r \<Longrightarrow> regex_search m s = Some (0, r)"
  by (cases s) auto

lemma match_descr_text:
  assumes "e \<in> set ''<>|''" "is_Az t" "ds \<noteq> []" "list_all is_digit ds"
  shows "match_descr (descr_text e t ds @ rest) = Some (e, t, ds)"
proof -
  have nq: "\<not> is_digit (CHR 0x27)" by (simp add: is_digit_def)
  have "takeWhile is_digit (ds @ CHR 0x27 # rest) = ds"
    and "dropWhile is_digit (ds @ CHR 0x27 # rest) = CHR 0x27 # rest"
    using assms(4) nq by (simp_all add: takeWhile_stop dropWhile_stop)
  then show ?thesis
    using assms(1-3) by (simp add: match_descr_def descr_text_def)
qed

lemma regex_search_Some:
  "regex_search m s = Some (i, r) \<Longrightarrow>
     i \<le> length s \<and> m (drop i s) = Some r \<and> (\<forall>j<i. m (drop j s) = None)"
proof (induction s arbitrary: i)
  case Nil
  then show ?case by auto
next
  case (Cons c cs)
  show ?case
  proof (cases "m (c # cs)")
    case (Some r')
    with Cons.prems show ?thesis by auto
  next
    case None
    with Cons.prems obtain i' where i: "i = Suc i'" and s: "regex_search m cs = Some (i', r)"
      by (auto split: option.splits)
    from Cons.IH [OF s] have ih: "i' \<le> length cs" "m (drop i' cs) = Some r"
      "\<forall>j<i'. m (drop j cs) = None" by auto
    have "m (drop j (c # cs)) = None" if "j < i" for j
      using that None ih(3) i by (cases j) auto
    with ih i show ?thesis by auto
  qed
qed

lemma regex_search_skip:
  "(\<forall>j < length B. m (drop j (B @ s)) = None) \<Longrightarrow>
     regex_search m (B @ s) = map_option (\<lambda>(i, r). (length B + i, r)) (regex_search m s)"
proof (induction B)
  case Nil
  then show ?case by (simp add: option.map_ident split_def)
next
  case (Cons b B)
  have h: "m (b # B @ s) = None" using Cons.prems [rule_format, of 0] by simp
  have "\<forall>j < length B. m (drop j (B @ s)) = None"
    using Cons.prems [rule_format, of "Suc j" for j] by auto
  from Cons.IH [OF this] h show ?case
    by (simp add: option.map_comp comp_def split_def)
qed

lemma find_str_Some:
  assumes "find_str sub s = Some p"
  shows "p \<le> length s \<and> prefix sub (drop p s)"
proof -
  from assms obtain u where "regex_search (\<lambda>t. if prefix sub t then Some () else None) s = Some (p, u)"
    by (auto simp: find_str_def)
  from regex_search_Some [OF this] show ?thesis
    by (auto split: if_splits)
qed

lemma find_str_Some_drop:
  assumes "find_str sub s = Some p"
  shows "drop p s = sub @ drop (p + length sub) s"
proof -
  from find_str_Some [OF assms] obtain zs where "drop p s = sub @ zs"
    by (auto simp: prefix_def)
  moreover from this have "drop (length sub) (drop p s) = zs" by simp
  then have "drop (p + length sub) s = zs" by (simp add: add.commute)
  ultimately show ?thesis by simp
qed

lemma find_str_first:
  assumes "c \<notin> set B"
  shows "find_str [c] (B @ c # rest) = Some (length B)"
proof -
  let ?m = "\<lambda>t. if prefix [c] t then Some () else None"
  have "?m (drop j (B @ c # rest)) = None" if "j < length B" for j
  proof -
    from that have "drop j (B @ c # rest) = (B ! j) # drop (Suc j) B @ c # rest"
      by (simp add: Cons_nth_drop_Suc)
    moreover have "B ! j \<noteq> c" using assms that by auto
    ultimately show ?thesis by simp
  qed
  then have "regex_search ?m (B @ c # rest)
      = map_option (\<lambda>(i, r). (length B + i, r)) (regex_search ?m (c # rest))"
    by (intro regex_search_skip) simp
  then show ?thesis by (simp add: find_str_def)
qed

lemma match_tuple_parts:
  assumes "takeWhile is_word rest = l" "dropWhile is_word rest = r" "l \<noteq> []"
    and "prefix ([CHR 0x27] @ '', '') r"
    and "match_descr (drop 3 r) = Some (e, t, ds)"
    and "prefix '')'' (drop (3 + (4 + length ds)) r)"
  shows "match_tuple (CHR ''('' # CHR 0x27 # rest) = Some (l, e, t, ds)"
  using assms by (simp add: match_tuple_def)

lemma match_tuple_text:
  assumes "wf_tuple x"
  shows "match_tuple (tuple_text x @ rest) = Some x"
proof -
  obtain l e t ds where x: "x = (l, e, t, ds)" by (cases x) auto
  from assms x have wf: "l \<noteq> []" "list_all is_word l" "e \<in> set ''<>|''" "is_letter t"
    "ds \<noteq> []" "list_all is_digit ds" by auto
  have nq: "\<not> is_word (CHR 0x27)" by (simp add: is_word_def)
  define z where "z = descr_text e t ds @ '')'' @ rest"
  define r where "r = CHR 0x27 # '', '' @ z"
  have tw: "takeWhile is_word (l @ r) = l" "dropWhile is_word (l @ r) = r"
    unfolding r_def using wf(2) nq by (simp_all add: takeWhile_stop dropWhile_stop)
  have md: "match_descr z = Some (e, t, ds)"
    unfolding z_def using wf by (intro match_descr_text) (auto simp: letter_is_Az)
  have d3: "drop 3 r = z" by (simp add: r_def)
  have len: "length (descr_text e t ds) = 4 + length ds" by (simp add: descr_text_def)
  have "drop (length (descr_text e t ds)) z = '')'' @ rest"
    unfolding z_def by simp
  then have "drop (4 + length ds) (drop 3 r) = '')'' @ rest"
    unfolding len d3 .
  then have dr: "prefix '')'' (drop (3 + (4 + length ds)) r)"
    by (simp add: add.commute)
  have pq: "prefix ([CHR 0x27] @ '', '') r" by (simp add: r_def)
  have "match_tuple (CHR ''('' # CHR 0x27 # (l @ r)) = Some (l, e, t, ds)"
    by (rule match_tuple_parts [OF tw(1) tw(2) wf(1) pq _ dr]) (simp only: d3 md)
  moreover have "tuple_text x @ rest = CHR ''('' # CHR 0x27 # (l @ r)"
    by (simp add: x r_def z_def)
  ultimately show ?thesis by (simp only: x)
qed

lemma length_tuple_text: "length (tuple_text (l, e, t, ds)) = 10 + length l + length ds"
  by (simp add: descr_text_def)

lemma tuple_matches_skip: "length B = k \<Longrightarrow> tuple_matches k (B @ s) = tuple_matches 0 s"
  by (induction B arbitrary: k) auto

lemma match_tuple_no_paren: "c \<noteq> CHR ''('' \<Longrightarrow> match_tuple (c # cs) = None"
  by (auto simp: match_tuple_def Let_def split: list.splits)

lemma tuple_matches_no_paren: "CHR ''('' \<notin> set u \<Longrightarrow> tuple_matches 0 u = []"
  by (induction u) (auto simp: match_tuple_no_paren)

lemma tuple_matches_tuple:
  assumes "wf_tuple x"
  shows "tuple_matches 0 (tuple_text x @ rest) = x # tuple_matches 0 rest"
proof -
  obtain l e t ds where x: "x = (l, e, t, ds)" by (cases x) auto
  obtain B where B: "tuple_text x = CHR ''('' # B" and lB: "length B = 9 + length l + length ds"
    by (simp add: x descr_text_def)
  have "match_tuple (CHR ''('' # B @ rest) = Some x"
    using match_tuple_text [OF assms, of rest] B by simp
  then have "tuple_matches 0 (CHR ''('' # B @ rest)
      = x # tuple_matches (9 + length l + length ds) (B @ rest)"
    by (simp add: x)
  with tuple_matches_skip [OF lB, of rest] B show ?thesis by simp
qed

lemma tuple_matches_tuples:
  "list_all wf_tuple ts \<Longrightarrow> CHR ''('' \<notin> set u \<Longrightarrow> tuple_matches 0 (tuples_text ts @ u) = ts"
proof (induction ts rule: tuples_text.induct)
  case 1
  then show ?case by (simp add: tuple_matches_no_paren)
next
  case (2 x)
  then show ?case by (simp add: tuple_matches_tuple tuple_matches_no_paren)
next
  case (3 x y zs)
  then have "tuple_matches 0 (tuples_text (y # zs) @ u) = y # zs" by simp
  moreover have "tuple_matches 0 (tuple_text x @ '', '' @ tuples_text (y # zs) @ u)
      = x # tuple_matches 0 ('', '' @ tuples_text (y # zs) @ u)"
    using 3 by (intro tuple_matches_tuple) simp
  ultimately show ?case by (simp add: match_tuple_no_paren)
qed

lemma bracket_not_class:
  "\<not> is_word (CHR '']'')" "\<not> is_digit (CHR '']'')" "\<not> is_letter (CHR '']'')"
  by (simp_all add: is_word_def is_digit_def is_letter_def)

lemma no_bracket_tuple_text: "wf_tuple x \<Longrightarrow> CHR '']'' \<notin> set (tuple_text x)"
  using bracket_not_class by (cases x) (auto simp: descr_text_def list_all_iff)

lemma no_bracket_tuples_text: "list_all wf_tuple ts \<Longrightarrow> CHR '']'' \<notin> set (tuples_text ts)"
  by (induction ts rule: tuples_text.induct) (auto simp: no_bracket_tuple_text)

lemma parse_tuples_big_endian:
  "\<exists>x \<in> set ts. fst (snd x) = CHR ''>'' \<Longrightarrow> \<exists>err. parse_tuples ts = Inl err"
proof (induction ts)
  case Nil
  then show ?case by simp
next
  case (Cons x ts)
  obtain l e t ds where x: "x = (l, e, t, ds)" by (cases x) auto
  show ?case
  proof (cases "e = CHR ''>''")
    case True
    then show ?thesis by (simp add: x)
  next
    case False
    with Cons.prems x have "\<exists>y \<in> set ts. fst (snd y) = CHR ''>''" by auto
    from Cons.IH [OF this] show ?thesis
      by (auto simp: x split: sum.splits)
  qed
qed

lemma match_descr_no_quote: "c \<noteq> CHR 0x27 \<Longrightarrow> match_descr (c # cs) = None"
  by (auto simp: match_descr_def Let_def split: list.splits)

lemma match_descr_no_endian: "e \<notin> set ''<>|'' \<Longrightarrow> match_descr (c # e # cs) = None"
  by (auto simp: match_descr_def Let_def split: list.splits)

lemma regex_search_descr_key:
  "regex_search match_descr ('''descr': '' @ X)
     = map_option (\<lambda>(i, r). (9 + i, r)) (regex_search match_descr X)"
  by (simp add: match_descr_no_quote match_descr_no_endian option.map_comp comp_def split_def
      eval_nat_numeral)

lemma drop_nonempty_nth: "drop n xs = y # ys \<Longrightarrow> n < length xs \<and> xs ! n = y"
  by (metis Cons_nth_drop_Suc drop_eq_Nil2 list.distinct(1) list.inject not_le)

lemma parse_descr_big_endian_simple:
  assumes p: "find_str '''descr': '' dict = Some p"
    and t: "is_letter t" and ds: "ds \<noteq> []" "list_all is_digit ds"
    and d: "drop (p + 9) dict = descr_text (CHR ''>'') t ds @ post"
  shows "parse_descr dict = Inl BigEndianNotSupported"
proof -
  from d have "drop (p + 9) dict = CHR 0x27 # CHR ''>'' # t # ds @ CHR 0x27 # post"
    by (simp add: descr_text_def)
  from drop_nonempty_nth [OF this] have c: "p + 9 < length dict" "dict ! (p + 9) = CHR 0x27"
    by auto
  have "length '''descr': '' = 9" by simp
  with find_str_Some_drop [OF p] have "drop p dict = '''descr': '' @ drop (p + 9) dict"
    by (simp only:)
  with d have "drop p dict = '''descr': '' @ descr_text (CHR ''>'') t ds @ post"
    by (simp only:)
  moreover have "match_descr (descr_text (CHR ''>'') t ds @ post) = Some (CHR ''>'', t, ds)"
    using t ds by (intro match_descr_text) (auto simp: letter_is_Az)
  ultimately have "regex_search match_descr (drop p dict) = Some (9, CHR ''>'', t, ds)"
    by (simp only: regex_search_descr_key regex_search_hit) simp
  with p c show ?thesis
    by (simp add: parse_descr_def)
qed

lemma parse_descr_struct_text:
  assumes p: "find_str '''descr': '' dict = Some p"
    and ts: "list_all wf_tuple ts"
    and u: "CHR ''('' \<notin> set u" "CHR '']'' \<notin> set u"
    and d: "drop (p + 9) dict = ''['' @ tuples_text ts @ u @ '']'' @ post"
  shows "parse_descr dict = parse_tuples ts"
proof -
  let ?B = "''['' @ tuples_text ts @ u"
  from d have d': "drop (p + 9) dict = ?B @ CHR '']'' # post" by simp
  then have "drop (p + 9) dict = CHR ''['' # tuples_text ts @ u @ CHR '']'' # post" by simp
  from drop_nonempty_nth [OF this] have c: "p + 9 < length dict" "dict ! (p + 9) = CHR ''[''"
    by auto
  have "CHR '']'' \<notin> set ?B"
    using no_bracket_tuples_text [OF ts] u(2) by simp
  from find_str_first [OF this, of post] d'
  have f: "find_from '']'' (p + 9) dict = Some (p + 9 + length ?B)"
    using c(1) by (simp add: find_from_def)
  have "take (length ?B) (drop (p + 9) dict) = ?B"
    unfolding d' by simp
  moreover have "tuple_matches 0 ?B = ts"
    using tuple_matches_tuples [OF ts u(1)] by (simp add: match_tuple_no_paren)
  ultimately show "parse_descr dict = parse_tuples ts"
    using p c f by (simp add: parse_descr_def)
qed

lemma parse_descr_big_endian_struct:
  assumes p: "find_str '''descr': '' dict = Some p"
    and ts: "list_all wf_tuple ts" "\<exists>x \<in> set ts. fst (snd x) = CHR ''>''"
    and u: "CHR ''('' \<notin> set u" "CHR '']'' \<notin> set u"
    and d: "drop (p + 9) dict = ''['' @ tuples_text ts @ u @ '']'' @ post"
  shows "\<exists>err. parse_descr dict = Inl err"
  using parse_descr_struct_text [OF p ts(1) u d] parse_tuples_big_endian [OF ts(2)] by simp

lemma parse_npy_dict_descr_error:
  "parse_descr dict = Inl e \<Longrightarrow> \<exists>err. parse_npy_dict dict = Inl err"
  by (auto simp: parse_npy_dict_def split: sum.splits)

text \<open>
  Claim C7, at an input on which the code departs from it. The descriptor is a list with
  one big-endian tuple whose label has a space. The expression with which the parser
  looks for tuples takes labels of letters, digits and underscores only, so the loop that
  rejects big-endian tuples never sees this one: the header parses, with no field at all.
\<close>

theorem big_endian_tuple_with_spaced_label_accepted:
  "parse_npy_dict
     (''{'descr': [('a b', '>i4')], 'fortran_order': False, 'shape': (3,), }'' @ [CHR 0x0A])
     = Inr \<lparr>ph_word_sizes = [], ph_data_types = [], ph_labels = [],
            ph_shape = [3], ph_memory_order = C\<rparr>"
  by (simp add: parse_eval)

text \<open>
  Where the loop does see the tuples, it rejects the marker: a dictionary fails to parse
  when the value of \<^verbatim>\<open>'descr'\<close> is a descriptor \<^verbatim>\<open>'>cN'\<close> (a letter \<open>c\<close>, digits \<open>N\<close>), or a
  list of tuples, each with a non-empty label of letters, digits and underscores, of
  which at least one has the marker \<^verbatim>\<open>>\<close>.
\<close>

lemma big_endian_rejected:
  assumes "find_str '''descr': '' dict = Some p"
    and "(is_letter t \<and> ds \<noteq> [] \<and> list_all is_digit ds
          \<and> drop (p + 9) dict = descr_text (CHR ''>'') t ds @ post)
       \<or> (list_all wf_tuple ts \<and> (\<exists>x \<in> set ts. fst (snd x) = CHR ''>'')
          \<and> CHR ''('' \<notin> set u \<and> CHR '']'' \<notin> set u
          \<and> drop (p + 9) dict = ''['' @ tuples_text ts @ u @ '']'' @ post)"
  shows "\<exists>err. parse_npy_dict dict = Inl err"
  using assms parse_descr_big_endian_simple [of dict p t ds post]
    parse_descr_big_endian_struct [of dict p ts u post]
    parse_npy_dict_descr_error [of dict]
  by blast

lemma big_endian_rejected_examples:
  "(\<exists>err. parse_npy_dict
       (''{'descr': '>f8', 'fortran_order': False, 'shape': (3, 7), }          '' @ [CHR 0x0A])
       = Inl err)
   \<and> (\<exists>err. parse_npy_dict
       (''{'descr': [('a', '<i4'), ('b', '>f8')], 'fortran_order': False, 'shape': (3,), }''
          @ [CHR 0x0A])
       = Inl err)"
proof -
  let ?d1 = "''{'descr': '>f8', 'fortran_order': False, 'shape': (3, 7), }          '' @ [CHR 0x0A]"
  let ?d2 = "''{'descr': [('a', '<i4'), ('b', '>f8')], 'fortran_order': False, 'shape': (3,), }''
          @ [CHR 0x0A]"
  let ?ts = "[(''a'', CHR ''<'', CHR ''i'', ''4''), (''b'', CHR ''>'', CHR ''f'', ''8'')]"
  have p1: "find_str '''descr': '' ?d1 = Some 1" by (simp add: find_str_def)
  have h1: "is_letter (CHR ''f'') \<and> ''8'' \<noteq> [] \<and> list_all is_digit ''8''
      \<and> drop (1 + 9) ?d1 = descr_text (CHR ''>'') (CHR ''f'') ''8''
          @ '', 'fortran_order': False, 'shape': (3, 7), }          '' @ [CHR 0x0A]"
    by (simp add: is_letter_def is_digit_def descr_text_def)
  have p2: "find_str '''descr': '' ?d2 = Some 1" by (simp add: find_str_def)
  have h2: "list_all wf_tuple ?ts \<and> (\<exists>x \<in> set ?ts. fst (snd x) = CHR ''>'')
      \<and> CHR ''('' \<notin> set [] \<and> CHR '']'' \<notin> set []
      \<and> drop (1 + 9) ?d2 = ''['' @ tuples_text ?ts @ [] @ '']''
          @ '', 'fortran_order': False, 'shape': (3,), }'' @ [CHR 0x0A]"
    by (simp add: is_letter_def is_digit_def is_word_def descr_text_def)
  from big_endian_rejected [OF p1 disjI1 [OF h1]] big_endian_rejected [OF p2 disjI2 [OF h2]]
  show ?thesis by simp
qed

section \<open>Properties of saving and loading\<close>

text \<open>A file in Fortran order with shape (2, 3) and one-byte unsigned elements.\<close>

lemma fortran_header:
  "create_npy_header LittleEndian [2, 3] (CHR ''u'') 1 Fortran = Inr
        ([CHR 0x93] @ ''NUMPY'' @ [CHR 0x01, CHR 0x00, CHR 0x46, CHR 0x00]
        @ ''{'descr': '<u1', 'fortran_order': True, 'shape': (2, 3), }           '' @ [CHR 0x0A])"
  by (simp add: header_eval del: list.size(4))

lemma fortran_file:
  "npy_save LittleEndian ''f.npy'' UnsignedT 1 (ContiguousMemory ''abcdef'') [2, 3] ''w'' Fortran
     (\<lambda>name. None)
   = (Inr (), [''f.npy'' \<mapsto>
        [CHR 0x93] @ ''NUMPY'' @ [CHR 0x01, CHR 0x00, CHR 0x46, CHR 0x00]
        @ ''{'descr': '<u1', 'fortran_order': True, 'shape': (2, 3), }           '' @ [CHR 0x0A]
        @ ''abcdef''])"
  by (simp add: save_eval fortran_header)

lemma fortran_file_parse:
  "parse_npy_header ([CHR 0x93] @ ''NUMPY'' @ [CHR 0x01, CHR 0x00, CHR 0x46, CHR 0x00]
        @ ''{'descr': '<u1', 'fortran_order': True, 'shape': (2, 3), }           '' @ [CHR 0x0A]
        @ ''abcdef'')
   = Inr (\<lparr>ph_word_sizes = [1], ph_data_types = ''u'', ph_labels = [],
            ph_shape = [2, 3], ph_memory_order = Fortran\<rparr>, ''abcdef'')"
  by (simp add: parse_eval)

lemma fortran_header_grown:
  "create_npy_header LittleEndian [2, 6] (CHR ''u'') 1 Fortran = Inr
        ([CHR 0x93] @ ''NUMPY'' @ [CHR 0x01, CHR 0x00, CHR 0x46, CHR 0x00]
        @ ''{'descr': '<u1', 'fortran_order': True, 'shape': (2, 6), }           '' @ [CHR 0x0A])"
  by (simp add: header_eval del: list.size(4))

lemma fortran_append:
  "npy_save LittleEndian ''f.npy'' UnsignedT 1 (ContiguousMemory ''ABCDEFGHIJKLMNO'') [5, 3]
     ''a'' Fortran
     [''f.npy'' \<mapsto>
        [CHR 0x93] @ ''NUMPY'' @ [CHR 0x01, CHR 0x00, CHR 0x46, CHR 0x00]
        @ ''{'descr': '<u1', 'fortran_order': True, 'shape': (2, 3), }           '' @ [CHR 0x0A]
        @ ''abcdef'']
   = (Inr (), [''f.npy'' \<mapsto>
        [CHR 0x93] @ ''NUMPY'' @ [CHR 0x01, CHR 0x00, CHR 0x46, CHR 0x00]
        @ ''{'descr': '<u1', 'fortran_order': True, 'shape': (2, 6), }           '' @ [CHR 0x0A]
        @ ''abcdef'' @ ''ABCDEFGHIJKLMNO''])"
  unfolding npy_save_def
  by (simp add: fortran_file_parse [simplified] write_header_and_data_def
      fortran_header_grown [simplified] count_elements_def accumulate_int_def
      size_t_to_int_def int_to_size_t_def write_data_def write_at_def)

text \<open>
  Claim C5, at an input on which the code departs from it. The file has Fortran order
  and shape (2, 3), so the growth dimension is the last one and the first dimension must
  stay 2. The call appends data of shape (5, 3) in Fortran order: the source compares
  all dimensions but the first, whatever the order, finds 3 = 3 and succeeds.
\<close>

theorem npy_save_fortran_first_dimension_unchecked:
  "fst (npy_save LittleEndian ''f.npy'' UnsignedT 1 (ContiguousMemory ''ABCDEFGHIJKLMNO'') [5, 3]
     ''a'' Fortran
     [''f.npy'' \<mapsto>
        [CHR 0x93] @ ''NUMPY'' @ [CHR 0x01, CHR 0x00, CHR 0x46, CHR 0x00]
        @ ''{'descr': '<u1', 'fortran_order': True, 'shape': (2, 3), }           '' @ [CHR 0x0A]
        @ ''abcdef''])
   = Inr ()"
  by (simp only: fortran_append fst_conv)

text \<open>
  Claim C4, at the same input. The data mismatches the file in a non-growth dimension,
  and the call rewrites the header to shape (2, 6) and appends the 15 bytes.
\<close>

theorem npy_save_fortran_mismatch_alters_file:
  "snd (npy_save LittleEndian ''f.npy'' UnsignedT 1 (ContiguousMemory ''ABCDEFGHIJKLMNO'') [5, 3]
     ''a'' Fortran
     [''f.npy'' \<mapsto>
        [CHR 0x93] @ ''NUMPY'' @ [CHR 0x01, CHR 0x00, CHR 0x46, CHR 0x00]
        @ ''{'descr': '<u1', 'fortran_order': True, 'shape': (2, 3), }           '' @ [CHR 0x0A]
        @ ''abcdef'']) ''f.npy''
   = Some ([CHR 0x93] @ ''NUMPY'' @ [CHR 0x01, CHR 0x00, CHR 0x46, CHR 0x00]
        @ ''{'descr': '<u1', 'fortran_order': True, 'shape': (2, 6), }           '' @ [CHR 0x0A]
        @ ''abcdef'' @ ''ABCDEFGHIJKLMNO'')"
  by (simp only: fortran_append snd_conv) simp

subsection \<open>Appending when the header grows\<close>

text \<open>
  One-byte unsigned elements, row-major order. With shape (99999999, 1, 1) the header
  takes 80 bytes with a single byte of padding; with shape (100000000, 1, 1) it takes 96.
\<close>

lemma header_80:
  "create_npy_header LittleEndian [99999999, 1, 1] (CHR ''u'') 1 C = Inr
     ([CHR 0x93] @ ''NUMPY'' @ [CHR 0x01, CHR 0x00, CHR 0x46, CHR 0x00]
      @ ''{'descr': '<u1', 'fortran_order': False, 'shape': (99999999, 1, 1), }'' @ [CHR 0x0A])"
  by (simp add: header_eval del: list.size(4))

lemma header_96:
  "create_npy_header LittleEndian [100000000, 1, 1] (CHR ''u'') 1 C = Inr
     ([CHR 0x93] @ ''NUMPY'' @ [CHR 0x01, CHR 0x00, CHR 0x56, CHR 0x00]
      @ ''{'descr': '<u1', 'fortran_order': False, 'shape': (100000000, 1, 1), }               ''
      @ [CHR 0x0A])"
  by (simp add: header_eval del: list.size(4))

lemma parse_80:
  "parse_npy_header
     ([CHR 0x93] @ ''NUMPY'' @ [CHR 0x01, CHR 0x00, CHR 0x46, CHR 0x00]
      @ ''{'descr': '<u1', 'fortran_order': False, 'shape': (99999999, 1, 1), }'' @ [CHR 0x0A]
      @ rest)
   = Inr (\<lparr>ph_word_sizes = [1], ph_data_types = ''u'', ph_labels = [],
            ph_shape = [99999999, 1, 1], ph_memory_order = C\<rparr>, rest)"
  by (simp add: parse_eval)

lemma parse_96:
  "parse_npy_header
     ([CHR 0x93] @ ''NUMPY'' @ [CHR 0x01, CHR 0x00, CHR 0x56, CHR 0x00]
      @ ''{'descr': '<u1', 'fortran_order': False, 'shape': (100000000, 1, 1), }               ''
      @ [CHR 0x0A] @ rest)
   = Inr (\<lparr>ph_word_sizes = [1], ph_data_types = ''u'', ph_labels = [],
            ph_shape = [100000000, 1, 1], ph_memory_order = C\<rparr>, rest)"
  by (simp add: parse_eval)

lemma count_elements_examples:
  "count_elements [99999999, Suc 0, Suc 0] = 99999999" "count_elements [Suc 0, Suc 0, Suc 0] = Suc 0"
  by (simp_all add: count_elements_def accumulate_int_def size_t_to_int_def int_to_size_t_def)

lemma save_80:
  "npy_save LittleEndian ''g.npy'' UnsignedT 1
     (ContiguousMemory (replicate 99999999 (CHR ''A''))) [99999999, 1, 1] ''w'' C (\<lambda>name. None)
   = (Inr (), [''g.npy'' \<mapsto>
        [CHR 0x93] @ ''NUMPY'' @ [CHR 0x01, CHR 0x00, CHR 0x46, CHR 0x00]
        @ ''{'descr': '<u1', 'fortran_order': False, 'shape': (99999999, 1, 1), }'' @ [CHR 0x0A]
        @ replicate 99999999 (CHR ''A'')])"
  unfolding npy_save_def write_header_and_data_def
  by (simp add: header_80 [simplified] count_elements_examples size_t_to_int_def write_data_def
      write_at_def)

lemma append_96:
  "npy_save LittleEndian ''g.npy'' UnsignedT 1 (ContiguousMemory ''B'') [1, 1, 1] ''a'' C
     [''g.npy'' \<mapsto>
        [CHR 0x93] @ ''NUMPY'' @ [CHR 0x01, CHR 0x00, CHR 0x46, CHR 0x00]
        @ ''{'descr': '<u1', 'fortran_order': False, 'shape': (99999999, 1, 1), }'' @ [CHR 0x0A]
        @ replicate 99999999 (CHR ''A'')]
   = (Inr (), [''g.npy'' \<mapsto>
        [CHR 0x93] @ ''NUMPY'' @ [CHR 0x01, CHR 0x00, CHR 0x56, CHR 0x00]
        @ ''{'descr': '<u1', 'fortran_order': False, 'shape': (100000000, 1, 1), }               ''
        @ [CHR 0x0A] @ replicate 99999983 (CHR ''A'') @ ''B''])"
  unfolding npy_save_def write_header_and_data_def
  by (simp add: parse_80 [simplified] header_96 [simplified] count_elements_examples
      size_t_to_int_def write_data_def write_at_def)

lemma load_96:
  "npy_load ''g.npy'' False
     [''g.npy'' \<mapsto>
        [CHR 0x93] @ ''NUMPY'' @ [CHR 0x01, CHR 0x00, CHR 0x56, CHR 0x00]
        @ ''{'descr': '<u1', 'fortran_order': False, 'shape': (100000000, 1, 1), }               ''
        @ [CHR 0x0A] @ replicate 99999983 (CHR ''A'') @ ''B'']
   = Inr (make_NpyArray [100000000, 1, 1] [1] [] C
       (replicate 99999983 (CHR ''A'') @ ''B'' @ replicate 16 (CHR 0x00)))"
  unfolding npy_load_def
  by (simp add: parse_96 [simplified] accumulate_size_t_def)

lemma payload_differs:
  "replicate 99999983 (CHR ''A'') @ ''B'' @ replicate 16 (CHR 0x00)
     \<noteq> replicate 99999999 (CHR ''A'') @ ''B''"
proof
  assume "replicate 99999983 (CHR ''A'') @ ''B'' @ replicate 16 (CHR 0x00)
     = replicate 99999999 (CHR ''A'') @ ''B''"
  then have "(replicate 99999983 (CHR ''A'') @ ''B'' @ replicate 16 (CHR 0x00)) ! 99999983
     = (replicate 99999999 (CHR ''A'') @ ''B'') ! 99999983" by (simp only:)
  then show False by (simp add: nth_append)
qed

text \<open>
  Claim C3, at an input on which the code departs from it. An array of shape
  (99999999, 1, 1) of one-byte elements is saved in row-major order, and one element of
  shape (1, 1, 1) is appended. The header for the combined shape (100000000, 1, 1) is 16
  bytes longer than the header in the file; written in place, it covers the first 16
  bytes of the payload. The file loads with the combined shape, but its payload is not
  the concatenation of the two writes: 16 bytes of the first write are gone, and the
  buffer ends in the 16 zero bytes the short read leaves.
\<close>

theorem append_growing_header_overwrites_payload:
  "\<exists>files1 files2 arr.
     npy_save LittleEndian ''g.npy'' UnsignedT 1
       (ContiguousMemory (replicate 99999999 (CHR ''A''))) [99999999, 1, 1] ''w'' C (\<lambda>name. None)
       = (Inr (), files1)
     \<and> npy_save LittleEndian ''g.npy'' UnsignedT 1 (ContiguousMemory ''B'') [1, 1, 1] ''a'' C files1
       = (Inr (), files2)
     \<and> npy_load ''g.npy'' False files2 = Inr arr
     \<and> arr_shape arr = [100000000, 1, 1]
     \<and> arr_buffer arr = replicate 99999983 (CHR ''A'') @ ''B'' @ replicate 16 (CHR 0x00)
     \<and> arr_buffer arr \<noteq> replicate 99999999 (CHR ''A'') @ ''B''"
  using payload_differs
  by (simp only: save_80 append_96 load_96 prod.inject sum.inject simp_thms ex_simps
      make_NpyArray_def NpyArray.simps)

section \<open>Properties of the streaming writer\<close>

lemmas stream_eval =
  npzwrite_source_read_def npz_save_callback_def Let_def

lemma stream_header:
  "create_npy_header LittleEndian [5] (CHR ''u'') 2 C = Inr
     ([CHR 0x93] @ ''NUMPY'' @ [CHR 0x01, CHR 0x00, CHR 0x46, CHR 0x00]
      @ ''{'descr': '<u2', 'fortran_order': False, 'shape': (5,), }            '' @ [CHR 0x0A])"
  by (simp add: header_eval del: list.size(4))

lemma stream_state:
  "npz_save_state LittleEndian UnsignedT 2 ''aAbBcCdDeE'' [5] C = Inr
     (\<lparr>ap_npyheader = [CHR 0x93] @ ''NUMPY'' @ [CHR 0x01, CHR 0x00, CHR 0x46, CHR 0x00]
         @ ''{'descr': '<u2', 'fortran_order': False, 'shape': (5,), }            '' @ [CHR 0x0A],
       ap_buffer_capacity = 2, ap_header_bytes_remaining = 80, ap_bytes_buffer_written = 0,
       ap_buffer_size = 0, ap_buffer = [CHR 0x00, CHR 0x00]\<rparr>,
      \<lparr>pr_it = ''aAbBcCdDeE'', pr_nels = 5, pr_wordsize = 2, pr_elements_written_total = 0\<rparr>)"
  unfolding npz_save_state_def
  by (simp add: stream_header [simplified] size_t_to_int_def make_additional_parameters_def
      count_elements_def accumulate_int_def int_to_size_t_def replicate_num)

lemma stream_first_pull:
  "npzwrite_source_read 50
     (\<lparr>ap_npyheader = [CHR 0x93] @ ''NUMPY'' @ [CHR 0x01, CHR 0x00, CHR 0x46, CHR 0x00]
         @ ''{'descr': '<u2', 'fortran_order': False, 'shape': (5,), }            '' @ [CHR 0x0A],
       ap_buffer_capacity = 2, ap_header_bytes_remaining = 80, ap_bytes_buffer_written = 0,
       ap_buffer_size = 0, ap_buffer = [CHR 0x00, CHR 0x00]\<rparr>,
      \<lparr>pr_it = ''aAbBcCdDeE'', pr_nels = 5, pr_wordsize = 2, pr_elements_written_total = 0\<rparr>)
   = Inr ([CHR 0x93] @ ''NUMPY'' @ [CHR 0x01, CHR 0x00, CHR 0x46, CHR 0x00]
         @ ''{'descr': '<u2', 'fortran_order': False,'',
     (\<lparr>ap_npyheader = [CHR 0x93] @ ''NUMPY'' @ [CHR 0x01, CHR 0x00, CHR 0x46, CHR 0x00]
         @ ''{'descr': '<u2', 'fortran_order': False, 'shape': (5,), }            '' @ [CHR 0x0A],
       ap_buffer_capacity = 2, ap_header_bytes_remaining = 30, ap_bytes_buffer_written = 0,
       ap_buffer_size = 0, ap_buffer = [CHR 0x00, CHR 0x00]\<rparr>,
      \<lparr>pr_it = ''aAbBcCdDeE'', pr_nels = 5, pr_wordsize = 2, pr_elements_written_total = 0\<rparr>))"
  by (simp add: stream_eval length_Cons_plus del: list.size(4))

lemma stream_second_pull:
  "npzwrite_source_read 50
     (\<lparr>ap_npyheader = [CHR 0x93] @ ''NUMPY'' @ [CHR 0x01, CHR 0x00, CHR 0x46, CHR 0x00]
         @ ''{'descr': '<u2', 'fortran_order': False, 'shape': (5,), }            '' @ [CHR 0x0A],
       ap_buffer_capacity = 2, ap_header_bytes_remaining = 30, ap_bytes_buffer_written = 0,
       ap_buffer_size = 0, ap_buffer = [CHR 0x00, CHR 0x00]\<rparr>,
      \<lparr>pr_it = ''aAbBcCdDeE'', pr_nels = 5, pr_wordsize = 2, pr_elements_written_total = 0\<rparr>)
   = Inl UndefinedBehaviour"
  by (simp add: stream_eval length_Cons_plus del: list.size(4))

lemma stream_single_pull:
  "npzwrite_source_read 1000
     (\<lparr>ap_npyheader = [CHR 0x93] @ ''NUMPY'' @ [CHR 0x01, CHR 0x00, CHR 0x46, CHR 0x00]
         @ ''{'descr': '<u2', 'fortran_order': False, 'shape': (5,), }            '' @ [CHR 0x0A],
       ap_buffer_capacity = 2, ap_header_bytes_remaining = 80, ap_bytes_buffer_written = 0,
       ap_buffer_size = 0, ap_buffer = [CHR 0x00, CHR 0x00]\<rparr>,
      \<lparr>pr_it = ''aAbBcCdDeE'', pr_nels = 5, pr_wordsize = 2, pr_elements_written_total = 0\<rparr>)
   = Inr ([CHR 0x93] @ ''NUMPY'' @ [CHR 0x01, CHR 0x00, CHR 0x46, CHR 0x00]
         @ ''{'descr': '<u2', 'fortran_order': False, 'shape': (5,), }            '' @ [CHR 0x0A]
         @ ''aAbBcCdDeE'',
     (\<lparr>ap_npyheader = [CHR 0x93] @ ''NUMPY'' @ [CHR 0x01, CHR 0x00, CHR 0x46, CHR 0x00]
         @ ''{'descr': '<u2', 'fortran_order': False, 'shape': (5,), }            '' @ [CHR 0x0A],
       ap_buffer_capacity = 2, ap_header_bytes_remaining = 0, ap_bytes_buffer_written = 0,
       ap_buffer_size = 0, ap_buffer = [CHR 0x00, CHR 0x00]\<rparr>,
      \<lparr>pr_it = [], pr_nels = 5, pr_wordsize = 2, pr_elements_written_total = 5\<rparr>))"
  by (simp add: stream_eval length_Cons_plus del: list.size(4))

text \<open>
  Claim C6, at an input on which the code departs from it. Five two-byte elements are
  written with an 80-byte header. A single request of 1000 bytes yields the header
  followed by the payload. With requests of 50 bytes, the first one yields the first 50
  header bytes and leaves 30; the second one does not copy \<open>min 50 30 = 30\<close> header bytes
  but \<open>min 50 80 = 50\<close>, starting at byte 50 of the 80-byte header, which reads past the end
  of the header.
\<close>

theorem streaming_short_request_reads_past_header:
  "\<exists>st0 bytes st1.
     npz_save_state LittleEndian UnsignedT 2 ''aAbBcCdDeE'' [5] C = Inr st0
     \<and> length (ap_npyheader (fst st0)) = 80
     \<and> pull_all [1000] st0 = Inr (ap_npyheader (fst st0) @ ''aAbBcCdDeE'')
     \<and> npzwrite_source_read 50 st0 = Inr (bytes, st1)
     \<and> bytes = take 50 (ap_npyheader (fst st0))
     \<and> ap_header_bytes_remaining (fst st1) = 30
     \<and> min 50 (length (ap_npyheader (fst st1))) = 50
     \<and> npzwrite_source_read 50 st1 = Inl UndefinedBehaviour
     \<and> pull_all [50, 50] st0 = Inl UndefinedBehaviour"
  unfolding stream_state
  by (simp add: stream_first_pull [simplified] stream_second_pull [simplified]
      stream_single_pull [simplified])

section \<open>Saving and loading again\<close>

subsection \<open>Numbers as text\<close>

lemma is_digit_digit_char: "d < 10 \<Longrightarrow> is_digit (digit_char d)"
  by (simp add: is_digit_def digit_char_def)

lemma value_digit_char: "d < 10 \<Longrightarrow> of_char (digit_char d) - 48 = d"
  by (simp add: digit_char_def)

lemma to_string_digits: "list_all is_digit (to_string n)"
proof (induction n rule: to_string.induct)
  case (1 n)
  show ?case
  proof (cases "n < 10")
    case True
    then show ?thesis by (simp add: to_string.simps [of n] is_digit_digit_char)
  next
    case False
    with 1 show ?thesis
      by (simp add: to_string.simps [of n] is_digit_digit_char)
  qed
qed

lemma to_string_nonempty: "to_string n \<noteq> []"
  by (simp add: to_string.simps [of n])

lemma digits_value_snoc: "digits_value (s @ [c]) = 10 * digits_value s + (of_char c - 48)"
  by (simp add: digits_value_def)

lemma digits_value_to_string: "digits_value (to_string n) = n"
proof (induction n rule: to_string.induct)
  case (1 n)
  show ?case
  proof (cases "n < 10")
    case True
    then show ?thesis
      by (simp add: to_string.simps [of n] digits_value_def value_digit_char)
  next
    case False
    with 1 have "digits_value (to_string (n div 10)) = n div 10" by simp
    with False show ?thesis
      by (simp add: to_string.simps [of n] digits_value_snoc value_digit_char)
  qed
qed

lemma stoi_to_string: "n \<le> 2147483647 \<Longrightarrow> stoi (to_string n) = Inr n"
  by (simp add: stoi_def digits_value_to_string)

lemma stoi_all_to_string:
  "list_all (\<lambda>d. d \<le> 2147483647) ds \<Longrightarrow> stoi_all (map to_string ds) = Inr ds"
  by (induction ds) (simp_all add: stoi_to_string)

lemma digit_not_in:
  "list_all is_digit s \<Longrightarrow> \<not> is_digit c \<Longrightarrow> c \<notin> set s"
  by (auto simp: list_all_iff)

lemma not_digit_chars:
  "\<not> is_digit (CHR 0x27)" "\<not> is_digit (CHR '')'')" "\<not> is_digit (CHR '']'')"
  "\<not> is_digit (CHR ''('')" "\<not> is_digit (CHR '','')" "\<not> is_digit (CHR '' '')"
  by (simp_all add: is_digit_def)

subsection \<open>The runs of digits in the text of a shape\<close>

lemma digit_runs_digits:
  "list_all is_digit ds \<Longrightarrow> digit_runs cur (ds @ rest) = digit_runs (cur @ ds) rest"
  by (induction ds arbitrary: cur) simp_all

lemma digit_runs_no_digits:
  "list_all (\<lambda>c. \<not> is_digit c) u \<Longrightarrow> digit_runs [] u = []"
  by (induction u) simp_all

lemma digit_runs_number:
  assumes "\<not> is_digit c"
  shows "digit_runs [] (to_string n @ c # rest) = to_string n # digit_runs [] rest"
  using digit_runs_digits [OF to_string_digits, of "[]" n "c # rest"] assms to_string_nonempty [of n]
  by simp

lemma digit_runs_append_dims:
  "list_all (\<lambda>c. \<not> is_digit c) u \<Longrightarrow>
     digit_runs [] (append_dims ds @ u) = map to_string ds"
proof (induction ds)
  case Nil
  then show ?case by (simp add: digit_runs_no_digits)
next
  case (Cons d ds)
  have "digit_runs [] (to_string d @ append_dims ds @ u) = to_string d # map to_string ds"
  proof (cases "append_dims ds @ u")
    case Nil
    then have "ds = []" by (cases ds) auto
    with Nil show ?thesis
      using digit_runs_digits [OF to_string_digits, of "[]" d "[]"] to_string_nonempty [of d]
      by simp
  next
    case (Cons c cs)
    have nd: "\<not> is_digit c"
    proof (cases ds)
      case Nil
      with Cons Cons.prems show ?thesis by auto
    next
      case (Cons d' ds')
      with \<open>append_dims ds @ u = c # cs\<close> have "c = CHR '',''" by simp
      then show ?thesis by (simp add: not_digit_chars)
    qed
    from digit_runs_number [OF nd, of d cs] nd Cons Cons.IH [OF Cons.prems]
    show ?thesis by simp
  qed
  then show ?case by (simp add: not_digit_chars)
qed

lemma digit_runs_shape:
  assumes "shape \<noteq> []"
  shows "digit_runs [] ('''shape': ('' @ append_shape shape) = map to_string shape"
proof -
  obtain d ds where s: "shape = d # ds" using assms by (cases shape) auto
  let ?u = "if length shape = 1 then '','' else []"
  have u: "list_all (\<lambda>c. \<not> is_digit c) ?u" by (simp add: not_digit_chars)
  have "append_shape shape = to_string d @ append_dims ds @ ?u"
    by (simp add: append_shape_def s)
  moreover have "'', '' @ to_string d @ append_dims ds @ ?u = append_dims (d # ds) @ ?u"
    by simp
  moreover have "digit_runs [] (append_dims (d # ds) @ ?u) = map to_string (d # ds)"
    using u by (rule digit_runs_append_dims)
  moreover have "digit_runs [] ('''shape': ('' @ X) = digit_runs [] ('', '' @ X)" for X
    by (simp add: is_digit_def)
  ultimately show ?thesis by (simp only: s)
qed

subsection \<open>Searching in composed text\<close>

lemma shift_Some [simp]: "shift n (Some (i, r)) = Some (n + i, r)"
  by (simp add: shift_def)

lemma shift_None [simp]: "shift n None = None"
  by (simp add: shift_def)

lemma regex_search_no_match:
  "no_match m B s \<Longrightarrow> regex_search m (B @ s) = shift (length B) (regex_search m s)"
  unfolding no_match_def shift_def by (rule regex_search_skip)

lemma no_match_Nil [simp]: "no_match m [] s"
  by (simp add: no_match_def)

lemma no_match_Cons:
  "no_match m (c # B) s \<longleftrightarrow> m (c # B @ s) = None \<and> no_match m B s"
proof
  assume a: "no_match m (c # B) s"
  then have "m (drop 0 ((c # B) @ s)) = None" unfolding no_match_def by blast
  moreover have "m (drop j (B @ s)) = None" if "j < length B" for j
    using a that unfolding no_match_def by (auto dest: spec [of _ "Suc j"])
  ultimately show "m (c # B @ s) = None \<and> no_match m B s" by (simp add: no_match_def)
next
  assume a: "m (c # B @ s) = None \<and> no_match m B s"
  show "no_match m (c # B) s"
    unfolding no_match_def
  proof (intro allI impI)
    fix j assume "j < length (c # B)"
    then show "m (drop j ((c # B) @ s)) = None"
      using a by (cases j) (auto simp: no_match_def)
  qed
qed

lemma no_match_append:
  "no_match m B1 (B2 @ s) \<Longrightarrow> no_match m B2 s \<Longrightarrow> no_match m (B1 @ B2) s"
  by (induction B1) (simp_all add: no_match_Cons)

lemma no_match_quote_free:
  assumes "\<And>c t. c \<noteq> CHR 0x27 \<Longrightarrow> m (c # t) = None" and "CHR 0x27 \<notin> set B"
  shows "no_match m B s"
  using assms(2) by (induction B) (auto simp: no_match_Cons intro: assms(1))

lemma key_mismatch:
  assumes "CHR 0x27 \<notin> set K" "CHR 0x27 \<notin> set L" "x \<noteq> y"
  shows "\<not> prefix (K @ CHR 0x27 # x # X) (L @ CHR 0x27 # y # Y)"
  using assms
proof (induction K arbitrary: L)
  case Nil
  then show ?case by (cases L) auto
next
  case (Cons k K)
  then show ?case by (cases L) auto
qed

text \<open>The two keys searched after the descriptor, as anchored matchers.\<close>

lemma match_fortran_order_quote: "c \<noteq> CHR 0x27 \<Longrightarrow> match_fortran_order (c # t) = None"
  by (simp add: match_fortran_order_def)

lemma match_shape_key_quote:
  "c \<noteq> CHR 0x27 \<Longrightarrow> (if prefix '''shape': ('' (c # t) then Some () else None) = None"
  by simp

lemma match_fortran_order_label:
  assumes "CHR 0x27 \<notin> set L"
  shows "match_fortran_order (CHR 0x27 # L @ CHR 0x27 # CHR '','' # Y) = None"
proof -
  have "\<not> prefix (''fortran_order'' @ CHR 0x27 # CHR '':'' # X) (L @ CHR 0x27 # CHR '','' # Y)" for X
    using assms by (intro key_mismatch) simp_all
  from this [of "'' True''"] this [of "'' False''"] show ?thesis
    by (simp add: match_fortran_order_def)
qed

lemma match_shape_key_label:
  assumes "CHR 0x27 \<notin> set L"
  shows "\<not> prefix '''shape': ('' (CHR 0x27 # L @ CHR 0x27 # CHR '','' # Y)"
proof -
  have "\<not> prefix (''shape'' @ CHR 0x27 # CHR '':'' # '' ('') (L @ CHR 0x27 # CHR '','' # Y)"
    using assms by (intro key_mismatch) simp_all
  then show ?thesis by simp
qed

subsection \<open>The dictionary after the descriptor\<close>

lemma tail_fortran_order:
  "regex_search match_fortran_order (c0 # dict_tail memory_order shape @ rest)
     = Some (3, memory_order_text memory_order)"
  by (cases memory_order)
     (simp_all add: dict_tail_def memory_order_text_def match_fortran_order_def)

lemma tail_shape_key:
  "regex_search (\<lambda>t. if prefix '''shape': ('' t then Some () else None)
       (c0 # dict_tail memory_order shape @ rest)
     = Some (22 + length (memory_order_text memory_order), ())"
  by (cases memory_order) (simp_all add: dict_tail_def memory_order_text_def)

lemma tail_drop_shape:
  "drop (22 + length (memory_order_text memory_order)) (c0 # dict_tail memory_order shape @ rest)
     = '''shape': ('' @ append_shape shape @ ''), }'' @ rest"
  by (cases memory_order) (simp_all add: dict_tail_def memory_order_text_def)

lemma no_paren_to_string: "CHR '')'' \<notin> set (to_string n)"
  using to_string_digits [of n] by (intro digit_not_in) (simp_all add: not_digit_chars)

lemma no_paren_append_dims: "CHR '')'' \<notin> set (append_dims ds)"
  by (induction ds) (simp_all add: no_paren_to_string)

lemma no_paren_append_shape: "CHR '')'' \<notin> set (append_shape shape)"
  by (simp add: append_shape_def no_paren_to_string no_paren_append_dims)

text \<open>The shape is read back from any text that continues with the tail.\<close>

lemma parse_shape_tail:
  assumes nm: "no_match (\<lambda>t. if prefix '''shape': ('' t then Some () else None) H
                 (c0 # dict_tail memory_order shape @ rest)"
    and shape: "shape \<noteq> []" "list_all (\<lambda>d. d \<le> 2147483647) shape"
  shows "parse_shape (H @ c0 # dict_tail memory_order shape @ rest) = Inr shape"
proof -
  define D where "D = H @ c0 # dict_tail memory_order shape @ rest"
  define p where "p = length H + (22 + length (memory_order_text memory_order))"
  define B where "B = '''shape': ('' @ append_shape shape"
  have p: "find_str '''shape': ('' D = Some p"
    unfolding find_str_def D_def p_def regex_search_no_match [OF nm] tail_shape_key by simp
  have d: "drop p D = B @ CHR '')'' # '', }'' @ rest"
    unfolding D_def p_def B_def
    using tail_drop_shape [of memory_order c0 shape rest] by simp
  have "CHR '')'' \<notin> set B" by (simp add: B_def no_paren_append_shape)
  from find_str_first [OF this, of "'', }'' @ rest"]
  have f: "find_str '')'' (drop p D) = Some (length B)"
    unfolding d .
  have "drop p D \<noteq> []" unfolding d by simp
  then have pl: "p \<le> length D" by (metis drop_all nat_le_linear)
  have e: "find_from '')'' p D = Some (p + length B)"
    unfolding find_from_def f using pl by simp
  have t: "take (p + length B - p) (drop p D) = B"
    unfolding d by simp
  have "parse_shape D = stoi_all (digit_runs [] B)"
    unfolding parse_shape_def p e option.case t ..
  also have "\<dots> = Inr shape"
    unfolding B_def digit_runs_shape [OF shape(1)] by (rule stoi_all_to_string [OF shape(2)])
  finally show ?thesis unfolding D_def .
qed

lemma parse_fortran_order_tail:
  assumes "no_match match_fortran_order H (c0 # dict_tail memory_order shape @ rest)"
  shows "parse_fortran_order (H @ c0 # dict_tail memory_order shape @ rest) = Inr memory_order"
  unfolding parse_fortran_order_def regex_search_no_match [OF assms] tail_fortran_order
  by (cases memory_order) (simp_all add: memory_order_text_def)

subsection \<open>The dictionary of a plain array\<close>

lemma plain_head_fortran_order:
  assumes "c \<noteq> CHR 0x27" "CHR 0x27 \<notin> set W"
  shows "no_match match_fortran_order (''{'descr': '' @ [CHR 0x27, CHR ''<'', c] @ W) s"
proof -
  have "no_match match_fortran_order (c # W) s"
    using assms by (intro no_match_quote_free match_fortran_order_quote) simp_all
  then show ?thesis
    by (simp add: no_match_Cons match_fortran_order_def)
qed

lemma plain_head_shape_key:
  assumes "c \<noteq> CHR 0x27" "CHR 0x27 \<notin> set W"
  shows "no_match (\<lambda>t. if prefix '''shape': ('' t then Some () else None)
           (''{'descr': '' @ [CHR 0x27, CHR ''<'', c] @ W) s"
proof -
  have "no_match (\<lambda>t. if prefix '''shape': ('' t then Some () else None) (c # W) s"
    using assms by (intro no_match_quote_free) simp_all
  then show ?thesis
    by (simp add: no_match_Cons)
qed

lemma parse_descr_plain_text:
  assumes "is_Az c" "W \<noteq> []" "list_all is_digit W" "stoi W = Inr w"
  shows "parse_descr (''{'descr': '' @ descr_text (CHR ''<'') c W @ rest) = Inr ([w], [c], [])"
proof -
  define D where "D = ''{'descr': '' @ descr_text (CHR ''<'') c W @ rest"
  have p: "find_str '''descr': '' D = Some 1"
    by (simp add: D_def find_str_def)
  have l: "\<not> length D \<le> 1 + 9" and n: "D ! (1 + 9) = CHR 0x27"
    by (simp_all add: D_def descr_text_def)
  have "drop 1 D = '''descr': '' @ descr_text (CHR ''<'') c W @ rest"
    by (simp add: D_def)
  moreover have "match_descr (descr_text (CHR ''<'') c W @ rest) = Some (CHR ''<'', c, W)"
    using assms(1-3) by (intro match_descr_text) simp_all
  ultimately have r: "regex_search match_descr (drop 1 D) = Some (9, CHR ''<'', c, W)"
    by (simp only: regex_search_descr_key regex_search_hit) simp
  show ?thesis
    unfolding D_def [symmetric] parse_descr_def p option.case Let_def n r
    using l assms(4) by simp
qed

lemma pad_dict_append:
  "pad_dict D = D @ butlast (replicate (16 - (10 + length D) mod 16) (CHR '' '')) @ [CHR 0x0A]"
proof -
  define r where "r = 16 - (10 + length D) mod 16"
  have "0 < r"
    unfolding r_def using mod_less_divisor [of 16 "10 + length D"] by simp
  then have "replicate r (CHR '' '') \<noteq> []" by simp
  then have "butlast (D @ replicate r (CHR '' '')) = D @ butlast (replicate r (CHR '' ''))"
    by (simp add: butlast_append)
  then show ?thesis by (simp add: pad_dict_def Let_def r_def)
qed

lemma parse_npy_dict_parts:
  assumes "D \<noteq> []" "hd D = CHR ''{''" "last P = CHR 0x0A" "P \<noteq> []"
    and "parse_fortran_order (D @ P) = Inr memory_order"
    and "parse_shape (D @ P) = Inr shape"
    and "parse_descr (D @ P) = Inr (ws, ts, ls)"
  shows "parse_npy_dict (D @ P) = Inr \<lparr>ph_word_sizes = ws, ph_data_types = ts, ph_labels = ls,
           ph_shape = shape, ph_memory_order = memory_order\<rparr>"
  using assms by (simp add: parse_npy_dict_def)

text \<open>The dictionary written for a plain array is parsed back to what was written.\<close>

lemma parse_plain_dict:
  assumes c: "is_letter c" and w: "w \<le> 2147483647"
    and shape: "shape \<noteq> []" "list_all (\<lambda>d. d \<le> 2147483647) shape"
  shows "parse_npy_dict (pad_dict (''{'descr': '' @ [CHR 0x27] @ [CHR ''<''] @ [c]
             @ to_string w @ ''', 'fortran_order': '' @ memory_order_text memory_order
             @ '', 'shape': ('' @ append_shape shape @ ''), }''))
         = Inr \<lparr>ph_word_sizes = [w], ph_data_types = [c], ph_labels = [],
                ph_shape = shape, ph_memory_order = memory_order\<rparr>"
proof -
  define W where "W = to_string w"
  define H where "H = ''{'descr': '' @ [CHR 0x27, CHR ''<'', c] @ W"
  define T where "T = dict_tail memory_order shape"
  define D where "D = H @ CHR 0x27 # T"
  define P where "P = butlast (replicate (16 - (10 + length D) mod 16) (CHR '' '')) @ [CHR 0x0A]"
  have W: "W \<noteq> []" "list_all is_digit W" "stoi W = Inr w"
    using w by (simp_all add: W_def to_string_nonempty to_string_digits stoi_to_string)
  have cq: "c \<noteq> CHR 0x27" using c by (auto simp: is_letter_def)
  have Wq: "CHR 0x27 \<notin> set W"
    using W(2) by (intro digit_not_in) (simp_all add: not_digit_chars)
  have eq: "''{'descr': '' @ [CHR 0x27] @ [CHR ''<''] @ [c]
             @ to_string w @ ''', 'fortran_order': '' @ memory_order_text memory_order
             @ '', 'shape': ('' @ append_shape shape @ ''), }'' = D"
    by (simp add: D_def H_def T_def W_def dict_tail_def)
  have pad: "pad_dict D = D @ P" unfolding P_def by (rule pad_dict_append)
  have DP: "D @ P = H @ CHR 0x27 # T @ P" by (simp add: D_def)
  have f: "parse_fortran_order (D @ P) = Inr memory_order"
    unfolding DP T_def H_def
    by (rule parse_fortran_order_tail [OF plain_head_fortran_order [OF cq Wq]])
  have s: "parse_shape (D @ P) = Inr shape"
    unfolding DP T_def H_def
    by (rule parse_shape_tail [OF plain_head_shape_key [OF cq Wq] shape])
  have "D @ P = ''{'descr': '' @ descr_text (CHR ''<'') c W @ T @ P"
    by (simp add: D_def H_def descr_text_def)
  then have d: "parse_descr (D @ P) = Inr ([w], [c], [])"
    using parse_descr_plain_text [OF letter_is_Az [OF c] W, of "T @ P"] by simp
  have "D \<noteq> []" "hd D = CHR ''{''" "last P = CHR 0x0A" "P \<noteq> []"
    by (simp_all add: D_def H_def P_def)
  from parse_npy_dict_parts [OF this f s d] show ?thesis
    unfolding eq pad .
qed

subsection \<open>The preamble\<close>

lemma load_le16_le_bytes:
  assumes "n < 65536"
  shows "load_le16 (char_of (n mod 256)) (char_of (n div 256)) = n"
proof -
  have "n div 256 < 256" using assms by simp
  then show ?thesis by (simp add: load_le16_def)
qed

lemma npy_preamble_bytes:
  "npy_preamble n = [CHR 0x93] @ ''NUMPY'' @ [CHR 0x01, CHR 0x00,
     char_of (n mod 65536 mod 256), char_of (n mod 65536 div 256)]"
  by (simp add: npy_preamble_def le_bytes_2)

lemma parse_npy_header_preamble:
  assumes "length dict < 65536"
  shows "parse_npy_header (npy_preamble (length dict) @ dict @ rest)
     = (case parse_npy_dict dict of Inl err \<Rightarrow> Inl err | Inr ph \<Rightarrow> Inr (ph, rest))"
proof -
  define n where "n = length dict"
  define lo where "lo = char_of (n mod 256)"
  define hi where "hi = char_of (n div 256)"
  define fs where "fs = npy_preamble n @ dict @ rest"
  have n: "n < 65536" using assms by (simp add: n_def)
  have pre: "npy_preamble n = [CHR 0x93] @ ''NUMPY'' @ [CHR 0x01, CHR 0x00, lo, hi]"
    using n by (simp add: npy_preamble_bytes lo_def hi_def)
  have len: "load_le16 lo hi = n"
    unfolding lo_def hi_def by (rule load_le16_le_bytes [OF n])
  have a: "\<not> length fs < 10" by (simp add: fs_def pre)
  have b: "take 10 fs = [CHR 0x93] @ ''NUMPY'' @ [CHR 0x01, CHR 0x00, lo, hi]"
    by (simp add: fs_def pre)
  have g: "take n (drop 10 fs) = dict" "drop (10 + n) fs = rest"
    by (simp_all add: fs_def n_def length_npy_preamble)
  have h: "dict @ replicate (n - length dict) (CHR 0x00) = dict"
    by (simp add: n_def)
  have "parse_npy_header fs
     = (case parse_npy_dict dict of Inl err \<Rightarrow> Inl err | Inr ph \<Rightarrow> Inr (ph, rest))"
    unfolding parse_npy_header_def Let_def b
    using a by (simp add: npy_magic_string_def len g h cong: sum.case_cong)
  then show ?thesis by (simp only: fs_def n_def)
qed

subsection \<open>Counting elements\<close>

lemma size_t_to_int_mod: "size_t_to_int n mod 2 ^ 32 = int n mod 2 ^ 32"
  by (simp add: size_t_to_int_def Let_def zmod_int)

lemma size_t_to_int_range: "- (2 ^ 31) \<le> size_t_to_int n \<and> size_t_to_int n < 2 ^ 31"
proof -
  have "n mod 2 ^ 32 < 2 ^ 32" by simp
  then show ?thesis by (auto simp: size_t_to_int_def Let_def)
qed

lemma int_to_size_t_mod: "int (int_to_size_t i) mod 2 ^ 32 = i mod 2 ^ 32"
proof -
  have "int (int_to_size_t i) = i mod 2 ^ 64" by (simp add: int_to_size_t_def)
  moreover have "(i mod 2 ^ 64) mod 2 ^ 32 = i mod 2 ^ 32"
    by (rule mod_mod_cancel) simp
  ultimately show ?thesis by simp
qed

lemma accumulate_step_mod:
  "size_t_to_int ((int_to_size_t acc * x) mod 2 ^ 64) mod 2 ^ 32 = (acc * int x) mod 2 ^ 32"
proof -
  have "int ((int_to_size_t acc * x) mod 2 ^ 64) mod 2 ^ 32
      = int (int_to_size_t acc * x) mod 2 ^ 32"
  proof -
    have "int ((int_to_size_t acc * x) mod 2 ^ 64) = int (int_to_size_t acc * x) mod 2 ^ 64"
      by (simp add: zmod_int)
    moreover have "(int (int_to_size_t acc * x) mod 2 ^ 64) mod 2 ^ 32
        = int (int_to_size_t acc * x) mod 2 ^ 32"
      by (rule mod_mod_cancel) simp
    ultimately show ?thesis by simp
  qed
  also have "\<dots> = (int (int_to_size_t acc) * int x) mod 2 ^ 32" by simp
  also have "\<dots> = ((int (int_to_size_t acc) mod 2 ^ 32) * int x) mod 2 ^ 32"
    by (simp add: mod_mult_left_eq)
  also have "\<dots> = ((acc mod 2 ^ 32) * int x) mod 2 ^ 32"
    by (simp only: int_to_size_t_mod)
  also have "\<dots> = (acc * int x) mod 2 ^ 32"
    by (simp add: mod_mult_left_eq)
  finally show ?thesis by (simp only: size_t_to_int_mod)
qed

lemma accumulate_foldl_mod:
  "foldl (\<lambda>acc x. size_t_to_int ((int_to_size_t acc * x) mod 2 ^ 64)) a xs mod 2 ^ 32
     = (a * int (prod_list xs)) mod 2 ^ 32"
proof (induction xs arbitrary: a)
  case Nil
  then show ?case by simp
next
  case (Cons x xs)
  let ?a = "size_t_to_int ((int_to_size_t a * x) mod 2 ^ 64)"
  have "(?a * int (prod_list xs)) mod 2 ^ 32 = ((?a mod 2 ^ 32) * int (prod_list xs)) mod 2 ^ 32"
    by (simp add: mod_mult_left_eq)
  also have "\<dots> = (((a * int x) mod 2 ^ 32) * int (prod_list xs)) mod 2 ^ 32"
    by (simp only: accumulate_step_mod)
  also have "\<dots> = (a * int x * int (prod_list xs)) mod 2 ^ 32"
    by (simp add: mod_mult_left_eq)
  finally show ?case using Cons.IH [of ?a] by (simp add: mult.assoc)
qed

lemma accumulate_foldl_range:
  "- (2 ^ 31) \<le> a \<Longrightarrow> a < 2 ^ 31 \<Longrightarrow>
     - (2 ^ 31) \<le> foldl (\<lambda>acc x. size_t_to_int ((int_to_size_t acc * x) mod 2 ^ 64)) a xs
     \<and> foldl (\<lambda>acc x. size_t_to_int ((int_to_size_t acc * x) mod 2 ^ 64)) a xs < 2 ^ 31"
proof (induction xs arbitrary: a)
  case Nil
  then show ?case by simp
next
  case (Cons x xs)
  show ?case
    using Cons.IH [of "size_t_to_int ((int_to_size_t a * x) mod 2 ^ 64)"] size_t_to_int_range
    by simp
qed

lemma count_elements_prod:
  assumes "prod_list shape < 2 ^ 31"
  shows "count_elements shape = prod_list shape"
proof -
  define r where "r = accumulate_int shape"
  have m: "r mod 2 ^ 32 = int (prod_list shape) mod 2 ^ 32"
    unfolding r_def accumulate_int_def using accumulate_foldl_mod [of 1 shape] by simp
  have rng: "- (2 ^ 31) \<le> r" "r < 2 ^ 31"
    unfolding r_def accumulate_int_def using accumulate_foldl_range [of 1 shape] by simp_all
  have p: "0 \<le> int (prod_list shape)" "int (prod_list shape) < 2 ^ 31"
    using assms by simp_all
  have "r = int (prod_list shape)"
  proof (cases "0 \<le> r")
    case True
    with rng have "r mod 2 ^ 32 = r" by simp
    moreover from p have "int (prod_list shape) mod 2 ^ 32 = int (prod_list shape)" by simp
    ultimately show ?thesis using m by simp
  next
    case False
    have "(r + 2 ^ 32) mod 2 ^ 32 = r + 2 ^ 32"
      using rng False by (intro mod_pos_pos_trivial) simp_all
    moreover have "(r + 2 ^ 32) mod 2 ^ 32 = r mod 2 ^ 32" by simp
    ultimately have "r mod 2 ^ 32 = r + 2 ^ 32" by simp
    moreover from p have "int (prod_list shape) mod 2 ^ 32 = int (prod_list shape)" by simp
    ultimately have "r + 2 ^ 32 = int (prod_list shape)" using m by (simp only:)
    with rng p show ?thesis by simp
  qed
  then show ?thesis
    unfolding count_elements_def r_def [symmetric] using assms by (simp add: int_to_size_t_def)
qed

lemma accumulate_size_t_mult:
  "a < 2 ^ 64 \<Longrightarrow> accumulate_size_t (*) a xs = (a * prod_list xs) mod 2 ^ 64"
  unfolding accumulate_size_t_def
proof (induction xs arbitrary: a)
  case Nil
  then show ?case by simp
next
  case (Cons x xs)
  have "(a * x) mod 2 ^ 64 < (2 ^ 64 :: nat)" by simp
  from Cons.IH [OF this] show ?case
    by (simp add: mod_mult_left_eq mult.assoc)
qed

lemma accumulate_size_t_add:
  "a < 2 ^ 64 \<Longrightarrow> accumulate_size_t (+) a xs = (a + sum_list xs) mod 2 ^ 64"
  unfolding accumulate_size_t_def
proof (induction xs arbitrary: a)
  case Nil
  then show ?case by simp
next
  case (Cons x xs)
  have "(a + x) mod 2 ^ 64 < (2 ^ 64 :: nat)" by simp
  from Cons.IH [OF this] show ?case
    by (simp add: mod_add_left_eq add.assoc)
qed

subsection \<open>Writing the data\<close>

lemma write_data_chunks_take:
  "0 < buffer_size \<Longrightarrow> write_data_chunks buffer_size size_elem n src = take (n * size_elem) src"
proof (induction buffer_size size_elem n src rule: write_data_chunks.induct)
  case (1 buffer_size size_elem n src)
  show ?case
  proof (cases "n = 0")
    case True
    then show ?thesis by (subst write_data_chunks.simps) simp
  next
    case False
    define count where "count = min buffer_size n"
    have c: "count \<le> n" by (simp add: count_def)
    with False 1 have ih: "write_data_chunks buffer_size size_elem (n - count)
          (drop (count * size_elem) src)
        = take ((n - count) * size_elem) (drop (count * size_elem) src)"
      by (simp add: count_def)
    have "count + (n - count) = n" using c by simp
    then have "n * size_elem = (count + (n - count)) * size_elem" by simp
    also have "\<dots> = count * size_elem + (n - count) * size_elem"
      by (rule add_mult_distrib)
    finally have "take (n * size_elem) src
        = take (count * size_elem) src
          @ take ((n - count) * size_elem) (drop (count * size_elem) src)"
      by (simp only: take_add)
    with ih False 1(2) show ?thesis
      by (subst write_data_chunks.simps) (simp add: count_def Let_def)
  qed
qed

lemma write_data_take:
  assumes "nels * size_elem < 2 ^ 63" "nels * size_elem \<le> length (source_bytes start)"
  shows "write_data start size_elem nels = Inr (take (nels * size_elem) (source_bytes start))"
proof (cases start)
  case (ContiguousMemory mem)
  with assms show ?thesis by (simp add: write_data_def)
next
  case (InputIterator src)
  show ?thesis
  proof (cases "nels = 0")
    case True
    with InputIterator show ?thesis
      by (simp add: write_data_def) (subst write_data_chunks.simps, simp)
  next
    case False
    then have "0 < min nels 0x10000" by simp
    from write_data_chunks_take [OF this] InputIterator assms show ?thesis
      by (simp add: write_data_def)
  qed
qed

subsection \<open>A plain array, saved and loaded\<close>

lemma is_letter_map_type: "is_letter (map_type kind)"
  by (cases kind) (simp_all add: is_letter_def)

lemma size_t_to_int_small: "n < 2 ^ 31 \<Longrightarrow> size_t_to_int n = int n"
  by (simp add: size_t_to_int_def Let_def)

lemma npy_load_of_header:
  assumes "length dict < 65536"
    and "parse_npy_dict dict = Inr \<lparr>ph_word_sizes = ws, ph_data_types = ts, ph_labels = ls,
           ph_shape = shape, ph_memory_order = memory_order\<rparr>"
    and "sum_list ws * prod_list shape < 2 ^ 64"
    and "length bytes = sum_list ws * prod_list shape"
  shows "npy_load fname memory_mapped (files(fname \<mapsto> npy_preamble (length dict) @ dict @ bytes))
     = Inr (make_NpyArray shape ws ls memory_order bytes)"
proof -
  define num_vals where "num_vals = accumulate_size_t (*) 1 shape"
  define total where "total = accumulate_size_t (+) 0 ws"
  have "num_vals = prod_list shape mod 2 ^ 64" "total = sum_list ws mod 2 ^ 64"
    by (simp_all add: num_vals_def total_def accumulate_size_t_mult accumulate_size_t_add)
  then have "(total * num_vals) mod 2 ^ 64 = (sum_list ws * prod_list shape) mod 2 ^ 64"
    by (simp add: mod_mult_eq)
  with assms(3) assms(4) have nb: "(total * num_vals) mod 2 ^ 64 = length bytes" by simp
  have parse: "parse_npy_header (npy_preamble (length dict) @ dict @ bytes)
      = Inr (\<lparr>ph_word_sizes = ws, ph_data_types = ts, ph_labels = ls,
           ph_shape = shape, ph_memory_order = memory_order\<rparr>, bytes)"
    by (simp add: parse_npy_header_preamble [OF assms(1)] assms(2))
  have nb': "(accumulate_size_t (+) 0 ws * accumulate_size_t (*) (Suc 0) shape)
      mod 18446744073709551616 = length bytes"
    using nb by (simp add: total_def num_vals_def)
  show ?thesis
    unfolding npy_load_def
    by (simp add: parse Let_def nb')
qed

lemma plain_round_trip:
  assumes size: "size_of \<le> 2147483647"
    and shape: "shape \<noteq> []" "list_all (\<lambda>d. d \<le> 2147483647) shape" "prod_list shape < 2 ^ 31"
    and data: "prod_list shape * size_of \<le> length (source_bytes start)"
    and hdr: "create_npy_header LittleEndian shape (map_type kind) (int size_of) memory_order
               = Inr header" "length header < 65546"
  shows "\<exists>files'.
     npy_save LittleEndian fname kind size_of start shape ''w'' memory_order files = (Inr (), files')
     \<and> npy_load fname memory_mapped files'
       = Inr (make_NpyArray shape [size_of] [] memory_order
           (take (prod_list shape * size_of) (source_bytes start)))"
proof -
  define dict where "dict = pad_dict (''{'descr': '' @ [CHR 0x27] @ [CHR ''<''] @ [map_type kind]
             @ to_string size_of @ ''', 'fortran_order': '' @ memory_order_text memory_order
             @ '', 'shape': ('' @ append_shape shape @ ''), }'')"
  define bytes where "bytes = take (prod_list shape * size_of) (source_bytes start)"
  have header: "header = npy_preamble (length dict) @ dict"
    using hdr(1) shape(1)
    by (simp add: create_npy_header_def Let_def BigEndianTest_simps to_string_int_def dict_def)
  have ld: "length dict < 65536"
    using hdr(2) by (simp add: header length_npy_preamble)
  have si: "size_t_to_int size_of = int size_of"
    using size by (intro size_t_to_int_small) simp
  have n: "count_elements shape = prod_list shape"
    by (rule count_elements_prod [OF shape(3)])
  have bound: "prod_list shape * size_of \<le> 2 ^ 31 * 2 ^ 31"
    using shape(3) size by (intro mult_mono) simp_all
  have small63: "prod_list shape * size_of < 2 ^ 63"
  proof -
    note bound
    also have "2 ^ 31 * 2 ^ 31 < (2 ^ 63 :: nat)" by simp
    finally show ?thesis .
  qed
  have small: "prod_list shape * size_of < 2 ^ 64"
  proof -
    note bound
    also have "2 ^ 31 * 2 ^ 31 < (2 ^ 64 :: nat)" by simp
    finally show ?thesis .
  qed
  have w: "write_data start size_of (prod_list shape) = Inr bytes"
    unfolding bytes_def by (rule write_data_take [OF small63 data])
  have save: "npy_save LittleEndian fname kind size_of start shape ''w'' memory_order files
      = (Inr (), files(fname \<mapsto> npy_preamble (length dict) @ dict @ bytes))"
    unfolding npy_save_def write_header_and_data_def
    by (simp add: si hdr(1) n w header write_at_def)
  have parse: "parse_npy_dict dict = Inr \<lparr>ph_word_sizes = [size_of],
      ph_data_types = [map_type kind], ph_labels = [], ph_shape = shape,
      ph_memory_order = memory_order\<rparr>"
    unfolding dict_def
    by (rule parse_plain_dict [OF is_letter_map_type size shape(1) shape(2)])
  have lb: "length bytes = sum_list [size_of] * prod_list shape"
    using data by (simp add: bytes_def mult.commute)
  have "sum_list [size_of] * prod_list shape < 2 ^ 64"
    using small by (simp add: mult.commute)
  from npy_load_of_header [OF ld parse this lb, of fname memory_mapped files] save
  show ?thesis by (simp add: bytes_def)
qed

subsection \<open>The dictionary of a structured array\<close>

lemma append_fields_tuples_text:
  "append_fields LittleEndian fs
     = tuples_text (map (\<lambda>f. (fst f, CHR ''<'', fst (snd f), to_string (snd (snd f)))) fs)"
proof (induction fs)
  case Nil
  show ?case by simp
next
  case (Cons f fs)
  obtain l t s where f: "f = (l, t, s)" by (cases f)
  from Cons show ?case
    by (cases fs) (simp_all add: f descr_text_def BigEndianTest_simps)
qed

lemma parse_tuples_fields:
  "list_all (\<lambda>f. snd (snd f) \<le> 2147483647) fs \<Longrightarrow>
   parse_tuples (map (\<lambda>f. (fst f, CHR ''<'', fst (snd f), to_string (snd (snd f)))) fs)
     = Inr (map (\<lambda>f. snd (snd f)) fs, map (\<lambda>f. fst (snd f)) fs, map fst fs)"
  by (induction fs) (simp_all add: stoi_to_string)

lemma wf_tuple_fields:
  assumes "list_all (\<lambda>f. fst f \<noteq> [] \<and> list_all is_word (fst f) \<and> is_letter (fst (snd f))) fs"
  shows "list_all wf_tuple
           (map (\<lambda>f. (fst f, CHR ''<'', fst (snd f), to_string (snd (snd f)))) fs)"
  using assms by (induction fs) (simp_all add: to_string_nonempty to_string_digits)

text \<open>An expression that starts with a quoted key matches nowhere in the text of tuples.\<close>

lemma no_match_append_iff:
  "no_match m (B1 @ B2) s \<longleftrightarrow> no_match m B1 (B2 @ s) \<and> no_match m B2 s"
  by (induction B1) (auto simp: no_match_Cons)

lemma no_match_tuple_text:
  assumes q: "\<And>c t. c \<noteq> CHR 0x27 \<Longrightarrow> m (c # t) = None"
    and l: "\<And>L Y. CHR 0x27 \<notin> set L \<Longrightarrow> m (CHR 0x27 # L @ CHR 0x27 # CHR '','' # Y) = None"
    and c: "\<And>c t. c \<in> set '',<>|)'' \<Longrightarrow> m (CHR 0x27 # c # t) = None"
    and wf: "wf_tuple x"
  shows "no_match m (tuple_text x) s"
proof -
  obtain L e t ds where x: "x = (L, e, t, ds)" by (cases x) auto
  from wf have "list_all is_word L" "list_all is_digit ds" unfolding x by simp_all
  then have Lq: "CHR 0x27 \<notin> set L" and dq: "CHR 0x27 \<notin> set ds"
    using quote_not_word quote_not_digit by (auto simp: list_all_iff)
  from wf have eq: "e \<noteq> CHR 0x27" and e: "e \<in> set '',<>|)''" unfolding x by auto
  from wf have tq: "t \<noteq> CHR 0x27" unfolding x by (auto simp: is_letter_def)
  have 1: "no_match m L s'" for s'
    by (rule no_match_quote_free [of m, OF q Lq])
  have 2: "no_match m ds s'" for s'
    by (rule no_match_quote_free [of m, OF q dq])
  show ?thesis
    unfolding x
    by (simp add: descr_text_def no_match_Cons no_match_append_iff 1 2 q l [OF Lq] c [OF e]
        c [of "CHR '',''", simplified] c [of "CHR '')''", simplified] eq tq)
qed

lemma no_match_tuples_text:
  assumes q: "\<And>c t. c \<noteq> CHR 0x27 \<Longrightarrow> m (c # t) = None"
    and l: "\<And>L Y. CHR 0x27 \<notin> set L \<Longrightarrow> m (CHR 0x27 # L @ CHR 0x27 # CHR '','' # Y) = None"
    and c: "\<And>c t. c \<in> set '',<>|)'' \<Longrightarrow> m (CHR 0x27 # c # t) = None"
  shows "list_all wf_tuple ts \<Longrightarrow> no_match m (tuples_text ts) s"
proof (induction ts rule: tuples_text.induct)
  case 1
  show ?case by simp
next
  case (2 x)
  then have "wf_tuple x" by simp
  then have "no_match m (tuple_text x) s"
    using q l c by (rule no_match_tuple_text [rotated 3])
  then show ?case by simp
next
  case (3 x y zs)
  then have "wf_tuple x" by simp
  then have "no_match m (tuple_text x) ('', '' @ tuples_text (y # zs) @ s)"
    using q l c by (rule no_match_tuple_text [rotated 3])
  moreover from 3 have "no_match m (tuples_text (y # zs)) s" by simp
  ultimately show ?case
    by (simp add: no_match_append_iff no_match_Cons q)
qed

lemma struct_head_fortran_order:
  assumes "list_all wf_tuple ts" "CHR 0x27 \<notin> set u"
  shows "no_match match_fortran_order (''{'descr': ['' @ tuples_text ts @ u) s"
proof -
  have c: "match_fortran_order (CHR 0x27 # c # t) = None" if "c \<in> set '',<>|)''" for c t
    using that by (auto simp: match_fortran_order_def)
  have "no_match match_fortran_order (tuples_text ts) (u @ s)"
    by (rule no_match_tuples_text [of match_fortran_order,
          OF match_fortran_order_quote match_fortran_order_label c assms(1)])
  moreover have "no_match match_fortran_order u s"
    by (rule no_match_quote_free [of match_fortran_order, OF match_fortran_order_quote assms(2)])
  ultimately show ?thesis
    by (simp add: no_match_Cons no_match_append_iff match_fortran_order_def)
qed

lemma struct_head_shape_key:
  assumes "list_all wf_tuple ts" "CHR 0x27 \<notin> set u"
  shows "no_match (\<lambda>t. if prefix '''shape': ('' t then Some () else None)
           (''{'descr': ['' @ tuples_text ts @ u) s"
proof -
  let ?m = "\<lambda>t. if prefix '''shape': ('' t then Some () else None"
  have q: "?m (c # t) = None" if "c \<noteq> CHR 0x27" for c t
    using that by simp
  have l: "?m (CHR 0x27 # L @ CHR 0x27 # CHR '','' # Y) = None" if "CHR 0x27 \<notin> set L" for L Y
    using match_shape_key_label [OF that, of Y] by simp
  have c: "?m (CHR 0x27 # c # t) = None" if "c \<in> set '',<>|)''" for c t
    using that by auto
  have "no_match ?m (tuples_text ts) (u @ s)"
    by (rule no_match_tuples_text [of ?m, OF q l c assms(1)])
  moreover have "no_match ?m u s"
    by (rule no_match_quote_free [of ?m, OF q assms(2)])
  ultimately show ?thesis
    by (simp add: no_match_Cons no_match_append_iff)
qed

text \<open>The dictionary written for a structured array is parsed back to what was written.\<close>

lemma parse_struct_dict:
  assumes ts: "list_all wf_tuple ts" "parse_tuples ts = Inr (ws, cs, ls)"
    and u: "CHR ''('' \<notin> set u" "CHR '']'' \<notin> set u" "CHR 0x27 \<notin> set u"
    and shape: "shape \<noteq> []" "list_all (\<lambda>d. d \<le> 2147483647) shape"
  shows "parse_npy_dict (pad_dict (''{'descr': ['' @ tuples_text ts @ u
             @ ''], 'fortran_order': '' @ memory_order_text memory_order
             @ '', 'shape': ('' @ append_shape shape @ ''), }''))
         = Inr \<lparr>ph_word_sizes = ws, ph_data_types = cs, ph_labels = ls,
                ph_shape = shape, ph_memory_order = memory_order\<rparr>"
proof -
  define H where "H = ''{'descr': ['' @ tuples_text ts @ u"
  define T where "T = dict_tail memory_order shape"
  define D where "D = H @ CHR '']'' # T"
  define P where "P = butlast (replicate (16 - (10 + length D) mod 16) (CHR '' '')) @ [CHR 0x0A]"
  have eq: "''{'descr': ['' @ tuples_text ts @ u
             @ ''], 'fortran_order': '' @ memory_order_text memory_order
             @ '', 'shape': ('' @ append_shape shape @ ''), }'' = D"
    by (simp add: D_def H_def T_def dict_tail_def)
  have pad: "pad_dict D = D @ P" unfolding P_def by (rule pad_dict_append)
  have DP: "D @ P = H @ CHR '']'' # T @ P" by (simp add: D_def)
  have f: "parse_fortran_order (D @ P) = Inr memory_order"
    unfolding DP T_def H_def
    by (rule parse_fortran_order_tail [OF struct_head_fortran_order [OF ts(1) u(3)]])
  have s: "parse_shape (D @ P) = Inr shape"
    unfolding DP T_def H_def
    by (rule parse_shape_tail [OF struct_head_shape_key [OF ts(1) u(3)] shape])
  have p: "find_str '''descr': '' (D @ P) = Some 1"
    by (simp add: D_def H_def find_str_def)
  have "drop (1 + 9) (D @ P) = ''['' @ tuples_text ts @ u @ '']'' @ T @ P"
    by (simp add: D_def H_def)
  from parse_descr_struct_text [OF p ts(1) u(1) u(2) this] ts(2)
  have d: "parse_descr (D @ P) = Inr (ws, cs, ls)" by simp
  have "D \<noteq> []" "hd D = CHR ''{''" "last P = CHR 0x0A" "P \<noteq> []"
    by (simp_all add: D_def H_def P_def)
  from parse_npy_dict_parts [OF this f s d] show ?thesis
    unfolding eq pad .
qed

subsection \<open>The data of a structured array\<close>

lemma fill_concat:
  "map length tup = sizes \<Longrightarrow> length pre = off \<Longrightarrow>
   fill tup (calc_offsets off sizes) (pre @ replicate (sum_list sizes) z) = pre @ concat tup"
proof (induction tup arbitrary: sizes off pre)
  case Nil
  then show ?case by auto
next
  case (Cons elem elems)
  then obtain ss where sizes: "sizes = length elem # ss" "map length elems = ss" by auto
  have w: "write_at off elem (pre @ replicate (sum_list sizes) z)
      = (pre @ elem) @ replicate (sum_list ss) z"
    using Cons.prems(2) by (simp add: write_at_def sizes(1))
  have "length (pre @ elem) = off + length elem" using Cons.prems(2) by simp
  from Cons.IH [OF sizes(2) this] show ?case
    unfolding sizes(1) calc_offsets.simps fill.simps w [unfolded sizes(1)] by simp
qed

lemma pack_tuple_concat: "map length tup = sizes \<Longrightarrow> pack_tuple sizes tup = concat tup"
  using fill_concat [of tup sizes "[]" 0 "CHR 0x00"] by (simp add: pack_tuple_def)

lemma write_tuple_chunks_take:
  "0 < buffer_size \<Longrightarrow>
   write_tuple_chunks buffer_size sizes n tuples = concat (map (pack_tuple sizes) (take n tuples))"
proof (induction buffer_size sizes n tuples rule: write_tuple_chunks.induct)
  case (1 buffer_size sizes n tuples)
  show ?case
  proof (cases "n = 0")
    case True
    then show ?thesis by (subst write_tuple_chunks.simps) simp
  next
    case False
    define count where "count = min buffer_size n"
    have c: "count \<le> n" by (simp add: count_def)
    with False 1 have ih: "write_tuple_chunks buffer_size sizes (n - count) (drop count tuples)
        = concat (map (pack_tuple sizes) (take (n - count) (drop count tuples)))"
      by (simp add: count_def)
    have "take (count + (n - count)) tuples
        = take count tuples @ take (n - count) (drop count tuples)"
      by (rule take_add)
    then have "take n tuples = take count tuples @ take (n - count) (drop count tuples)"
      using c by simp
    with ih False 1(2) show ?thesis
      by (subst write_tuple_chunks.simps) (simp add: count_def Let_def)
  qed
qed

lemma write_data_tuple_concat:
  assumes "nels \<le> length first"
    and "list_all (\<lambda>tup. map length tup = sizes) (take nels first)"
  shows "write_data_tuple first sizes nels = Inr (concat (map concat (take nels first)))"
proof -
  have m: "map (pack_tuple sizes) (take nels first) = map concat (take nels first)"
    using assms(2) by (intro map_cong) (auto simp: list_all_iff pack_tuple_concat)
  then have m': "concat (map (pack_tuple sizes) (take nels first))
      = concat (map concat (take nels first))"
    by (rule arg_cong)
  show ?thesis
  proof (cases "nels = 0")
    case True
    with assms(1) show ?thesis
      by (simp add: write_data_tuple_def) (subst write_tuple_chunks.simps, simp)
  next
    case False
    then have "0 < min nels 0x10000" by simp
    from write_tuple_chunks_take [OF this] assms(1) m' show ?thesis
      by (simp add: write_data_tuple_def)
  qed
qed

lemma length_packed:
  "list_all (\<lambda>tup. map length tup = sizes) xs \<Longrightarrow>
   length (concat (map concat xs)) = sum_list sizes * length xs"
  by (induction xs) (auto simp: length_concat)

subsection \<open>A structured array, saved and loaded\<close>

lemma struct_round_trip:
  assumes labels: "length labels = length types"
      "list_all (\<lambda>l. l \<noteq> [] \<and> list_all is_word l) labels"
    and sizes: "list_all (\<lambda>s. s \<le> 2147483647) (map snd types)"
    and shape: "shape \<noteq> []" "list_all (\<lambda>d. d \<le> 2147483647) shape" "prod_list shape < 2 ^ 31"
    and total: "sum_list (map snd types) * prod_list shape < 2 ^ 64"
    and data: "prod_list shape \<le> length first"
      "list_all (\<lambda>tup. map length tup = map snd types) (take (prod_list shape) first)"
    and hdr: "create_npy_header_struct LittleEndian shape labels
                (map (\<lambda>(kind, size_of). map_type kind) types) (map snd types) memory_order
               = Inr header" "length header < 65546"
  shows "\<exists>files'.
     npy_save_struct LittleEndian fname labels types first shape ''w'' memory_order files
       = (Inr (), files')
     \<and> npy_load fname memory_mapped files'
       = Inr (make_NpyArray shape (map snd types) labels memory_order
           (concat (map concat (take (prod_list shape) first))))"
proof -
  define dtypes where "dtypes = map (\<lambda>(kind, size_of). map_type kind) types"
  define szs where "szs = map snd types"
  define fs where "fs = zip labels (zip dtypes szs)"
  define ts where "ts = map (\<lambda>f. (fst f, CHR ''<'', fst (snd f), to_string (snd (snd f)))) fs"
  define u where "u = (if length dtypes = 1 then '','' else [])"
  define dict where "dict = pad_dict (''{'descr': ['' @ tuples_text ts @ u
             @ ''], 'fortran_order': '' @ memory_order_text memory_order
             @ '', 'shape': ('' @ append_shape shape @ ''), }'')"
  define bytes where "bytes = concat (map concat (take (prod_list shape) first))"
  have len: "length dtypes = length types" "length szs = length types"
    by (simp_all add: dtypes_def szs_def)
  have szs': "map (\<lambda>(kind, size_of). size_of) types = szs"
    by (simp add: szs_def case_prod_unfold)
  have m1: "map fst fs = labels"
    by (simp add: fs_def labels(1) len)
  have m2: "map (\<lambda>f. fst (snd f)) fs = dtypes"
  proof -
    have "map (\<lambda>f. fst (snd f)) fs = map fst (map snd fs)" by simp
    also have "\<dots> = dtypes" unfolding fs_def by (simp add: labels(1) len)
    finally show ?thesis .
  qed
  have m3: "map (\<lambda>f. snd (snd f)) fs = szs"
  proof -
    have "map (\<lambda>f. snd (snd f)) fs = map snd (map snd fs)" by simp
    also have "\<dots> = szs" unfolding fs_def by (simp add: labels(1) len)
    finally show ?thesis .
  qed
  have header: "header = npy_preamble (length dict) @ dict"
    using hdr(1) shape(1) labels(1)
    by (simp add: create_npy_header_struct_def Let_def dict_def u_def ts_def fs_def
        append_fields_tuples_text dtypes_def szs_def)
  have ld: "length dict < 65536"
    using hdr(2) by (simp add: header length_npy_preamble)
  have n: "count_elements shape = prod_list shape"
    by (rule count_elements_prod [OF shape(3)])
  have w: "write_data_tuple first szs (prod_list shape) = Inr bytes"
    unfolding bytes_def szs_def by (rule write_data_tuple_concat [OF data])
  have save: "npy_save_struct LittleEndian fname labels types first shape ''w'' memory_order files
      = (Inr (), files(fname \<mapsto> npy_preamble (length dict) @ dict @ bytes))"
    unfolding npy_save_struct_def
    using hdr(1) by (simp add: labels(1) szs' dtypes_def [symmetric] szs_def [symmetric]
        n w header write_at_def)
  have "list_all (\<lambda>f. snd (snd f) \<le> 2147483647) fs"
    using sizes m3 by (simp add: list_all_iff szs_def [symmetric]) (metis imageI set_map)
  from parse_tuples_fields [OF this]
  have pt: "parse_tuples ts = Inr (szs, dtypes, labels)"
    by (simp add: ts_def m1 m2 m3)
  have "list_all (\<lambda>c. is_letter c) dtypes"
    by (simp add: dtypes_def list_all_iff case_prod_unfold is_letter_map_type)
  with labels(2) m1 m2
  have "list_all (\<lambda>f. fst f \<noteq> [] \<and> list_all is_word (fst f) \<and> is_letter (fst (snd f))) fs"
    by (simp add: list_all_iff) (metis imageI set_map)
  from wf_tuple_fields [OF this] have wf: "list_all wf_tuple ts"
    by (simp add: ts_def)
  have u: "CHR ''('' \<notin> set u" "CHR '']'' \<notin> set u" "CHR 0x27 \<notin> set u"
    by (simp_all add: u_def)
  have parse: "parse_npy_dict dict = Inr \<lparr>ph_word_sizes = szs,
      ph_data_types = dtypes, ph_labels = labels, ph_shape = shape,
      ph_memory_order = memory_order\<rparr>"
    unfolding dict_def
    by (rule parse_struct_dict [OF wf pt u shape(1) shape(2)])
  have lb: "length bytes = sum_list szs * prod_list shape"
    using length_packed [OF data(2)] data(1) by (simp add: bytes_def szs_def)
  have "sum_list szs * prod_list shape < 2 ^ 64"
    using total by (simp add: szs_def)
  from npy_load_of_header [OF ld parse this lb, of fname memory_mapped files] save
  show ?thesis by (simp add: bytes_def szs_def)
qed

subsection \<open>Saving and loading, together\<close>

lemma spaced_label_header:
  "create_npy_header_struct LittleEndian [1] [''a b''] [CHR ''i''] [4] C
     = Inr ([CHR 0x93] @ ''NUMPY'' @ [CHR 0x01, CHR 0x00, CHR 0x46, CHR 0x00]
        @ ''{'descr': [('a b', '<i4'),], 'fortran_order': False, 'shape': (1,), }'' @ [CHR 0x0A])"
  by (simp add: header_eval)

lemma spaced_label_save:
  "npy_save_struct LittleEndian ''s.npy'' [''a b''] [(SignedT, 4)] [[''wxyz'']] [1] ''w'' C
     Map.empty
   = (Inr (), [''s.npy'' \<mapsto>
        [CHR 0x93] @ ''NUMPY'' @ [CHR 0x01, CHR 0x00, CHR 0x46, CHR 0x00]
        @ ''{'descr': [('a b', '<i4'),], 'fortran_order': False, 'shape': (1,), }'' @ [CHR 0x0A]
        @ ''wxyz''])"
proof -
  have n: "count_elements [Suc 0] = Suc 0"
    by (simp add: count_elements_def accumulate_int_def size_t_to_int_def int_to_size_t_def)
  have "write_data_tuple [[''wxyz'']] [4] 1 = Inr (concat (map concat (take 1 [[''wxyz'']])))"
    by (rule write_data_tuple_concat) simp_all
  then have w: "write_data_tuple [[''wxyz'']] [4] (Suc 0) = Inr ''wxyz''" by simp
  show ?thesis
    unfolding npy_save_struct_def
    by (simp add: spaced_label_header [simplified] n w write_at_def Let_def)
qed

lemma spaced_label_parse:
  "parse_npy_header
     ([CHR 0x93] @ ''NUMPY'' @ [CHR 0x01, CHR 0x00, CHR 0x46, CHR 0x00]
      @ ''{'descr': [('a b', '<i4'),], 'fortran_order': False, 'shape': (1,), }'' @ [CHR 0x0A]
      @ ''wxyz'')
   = Inr (\<lparr>ph_word_sizes = [], ph_data_types = [], ph_labels = [], ph_shape = [1],
            ph_memory_order = C\<rparr>, ''wxyz'')"
  by (simp add: parse_eval)

lemma spaced_label_load:
  "npy_load ''s.npy'' False
     [''s.npy'' \<mapsto>
        [CHR 0x93] @ ''NUMPY'' @ [CHR 0x01, CHR 0x00, CHR 0x46, CHR 0x00]
        @ ''{'descr': [('a b', '<i4'),], 'fortran_order': False, 'shape': (1,), }'' @ [CHR 0x0A]
        @ ''wxyz'']
   = Inr \<lparr>arr_shape = [1], arr_word_sizes = [], arr_labels = [], arr_memory_order = C,
           arr_num_vals = 1, arr_total_value_size = 0, arr_buffer = []\<rparr>"
  unfolding npy_load_def
  by (simp add: spaced_label_parse [simplified] accumulate_size_t_def make_NpyArray_def)

text \<open>
  Claim C1, at an input on which the code departs from it. One record with the four-byte
  field \<^verbatim>\<open>a b\<close> is saved in mode \<^verbatim>\<open>"w"\<close>; the label is written as it is. The expression
  with which the parser looks for tuples takes labels of letters, digits and underscores
  only and passes over any other tuple without an error: the file loads, but with no
  label and no word size, and with an empty payload.
\<close>

theorem spaced_label_lost_on_load:
  "fst (npy_save_struct LittleEndian ''s.npy'' [''a b''] [(SignedT, 4)] [[''wxyz'']] [1] ''w'' C
          Map.empty) = Inr ()
   \<and> npy_load ''s.npy'' False
       (snd (npy_save_struct LittleEndian ''s.npy'' [''a b''] [(SignedT, 4)] [[''wxyz'']] [1]
          ''w'' C Map.empty))
     = Inr \<lparr>arr_shape = [1], arr_word_sizes = [], arr_labels = [], arr_memory_order = C,
           arr_num_vals = 1, arr_total_value_size = 0, arr_buffer = []\<rparr>"
  by (simp only: spaced_label_save spaced_label_load fst_conv snd_conv simp_thms)

end
